theory Spec2Isabelle
  imports Complex_Main
begin

section \<open>An electron in a plane laser pulse: the notebook as functions\<close>

text \<open>
  The notebook \<^verbatim>\<open>single_particle_laser.ipynb\<close> is a straight line of array
  computations. Each code cell becomes one or more functions below, in the order of the
  cells. The scalars the notebook fixes at the top (\<^verbatim>\<open>a_0\<close>, \<^verbatim>\<open>tau\<close>,
  \<^verbatim>\<open>Nint\<close>, \<^verbatim>\<open>xi0\<close>) are arguments here. A float array is a list of
  reals: the arithmetic is the exact one, with no rounding and no infinities, so the
  development speaks about the values the formulas denote. At \<^verbatim>\<open>tau = 0\<close> the
  floats divide by zero and carry a NaN on; there the cells are read a second time, over
  values that may be non-finite (\<open>run_nf\<close>), and for every other \<open>tau\<close> the two
  readings give the same arrays. Four names change, because
  of the logic's lexical rules and to keep single letters free for variables: the envelope
  \<^verbatim>\<open>a_\<close> is \<open>a_env\<close>, the waveform \<^verbatim>\<open>a\<close> is \<open>a_wave\<close>, the
  trajectories \<^verbatim>\<open>x\<close> and \<^verbatim>\<open>z\<close> are \<open>x_num\<close> and \<open>z_num\<close>.
\<close>

datatype error = IndexError | ValueError

subsection \<open>Array operations of the numeric library\<close>

text \<open>
  \<^verbatim>\<open>np.linspace(start, stop, num)\<close>: a negative \<^verbatim>\<open>num\<close> is refused;
  otherwise the samples are \<^verbatim>\<open>arange(num) * step + start\<close> with
  \<^verbatim>\<open>step = (stop - start) / (num - 1)\<close>, and when there is more than one sample the
  last one is overwritten with \<^verbatim>\<open>stop\<close>. With fewer than two samples there is
  no division and the samples are \<^verbatim>\<open>arange(num) * (stop - start) + start\<close>. (The
  library divides first and multiplies after when the step rounds to zero; over the reals
  both orders give the same samples.)
\<close>

definition linspace :: "real \<Rightarrow> real \<Rightarrow> int \<Rightarrow> error + real list" where
  "linspace start stop num =
     (if num < 0 then Inl ValueError
      else
        let n = nat num;
            dv = n - 1;
            delta = stop - start;
            y0 = map real [0..<n];
            y1 = (if 0 < dv then map (\<lambda>v. v * (delta / real dv)) y0
                  else map (\<lambda>v. v * delta) y0);
            y2 = map (\<lambda>v. v + start) y1
        in Inr (if 1 < n then y2[n - 1 := stop] else y2))"

text \<open>
  Indexing an array with an integer: a negative index counts from the end, and an index
  outside the array raises \<^verbatim>\<open>IndexError\<close>.
\<close>

definition getitem :: "real list \<Rightarrow> int \<Rightarrow> error + real" where
  "getitem arr k =
     (let len = int (length arr);
          pos = (if k < 0 then k + len else k)
      in if pos < 0 \<or> len \<le> pos then Inl IndexError else Inr (arr ! nat pos))"

text \<open>\<^verbatim>\<open>np.cumsum\<close>: the running sums of an array.\<close>

fun cumsum_from :: "real \<Rightarrow> real list \<Rightarrow> real list" where
  "cumsum_from s [] = []"
| "cumsum_from s (v # vs) = (s + v) # cumsum_from (s + v) vs"

definition cumsum :: "real list \<Rightarrow> real list" where
  "cumsum vs = cumsum_from 0 vs"

text \<open>
  \<^verbatim>\<open>scipy.integrate.cumtrapz(y, initial=c)\<close> with the default spacing
  \<^verbatim>\<open>dx = 1.0\<close>: \<^verbatim>\<open>cumsum(dx * (y[1:] + y[:-1]) / 2.0)\<close> with \<^verbatim>\<open>c\<close>
  put in front. The value \<^verbatim>\<open>c\<close> is only the first entry: it is not added to the
  sums after it.
\<close>

definition cumtrapz :: "real list \<Rightarrow> real \<Rightarrow> real list" where
  "cumtrapz y initial =
     initial # cumsum (map (\<lambda>s. 1 * s / 2) (map2 (+) (tl y) (butlast y)))"

subsection \<open>The error function\<close>

text \<open>
  \<^verbatim>\<open>scipy.special.erf\<close> is the error function, here through its power series
  \<open>2 / sqrt pi * (\<Sum>k. (- 1) ^ k * x ^ (2 * k + 1) / (k! * (2 * k + 1)))\<close>, written
  with one coefficient for each power of \<open>x\<close>.
\<close>

definition erf_coeffs :: "nat \<Rightarrow> real" where
  "erf_coeffs n =
     (if odd n then 2 / sqrt pi * (- 1) ^ ((n - 1) div 2) / (fact ((n - 1) div 2) * real n)
      else 0)"

definition erf :: "real \<Rightarrow> real" where
  "erf x = (\<Sum>n. erf_coeffs n * x ^ n)"

subsection \<open>The cells of the notebook\<close>

text \<open>
  Cell "set up xi space": \<^verbatim>\<open>xi = np.linspace(4*tau, -4*tau, Nint)\<close> and
  \<^verbatim>\<open>dxi = xi[2] - xi[1]\<close>. The result is the pair of the grid and the step.
\<close>

definition grid :: "real \<Rightarrow> int \<Rightarrow> error + (real list \<times> real)" where
  "grid tau Nint =
     (case linspace (4 * tau) (- 4 * tau) Nint of
        Inl e \<Rightarrow> Inl e
      | Inr xs \<Rightarrow>
          (case getitem xs 2 of
             Inl e \<Rightarrow> Inl e
           | Inr x2 \<Rightarrow>
               (case getitem xs 1 of
                  Inl e \<Rightarrow> Inl e
                | Inr x1 \<Rightarrow> Inr (xs, x2 - x1))))"

text \<open>
  Cell "define pulse": \<^verbatim>\<open>a_ = a_0*np.exp(-(xi - xi0)**2/tau**2)\<close> and
  \<^verbatim>\<open>a = a_*np.sin(xi)\<close>.
\<close>

definition envelope :: "real \<Rightarrow> real \<Rightarrow> real \<Rightarrow> real list \<Rightarrow> real list" where
  "envelope a0 tau xi0 xs = map (\<lambda>v. a0 * exp (- ((v - xi0) ^ 2) / tau ^ 2)) xs"

definition waveform :: "real list \<Rightarrow> real list \<Rightarrow> real list" where
  "waveform env xs = map2 (*) env (map sin xs)"

text \<open>
  Cell "momenta in laser field": \<^verbatim>\<open>px = a\<close>, \<^verbatim>\<open>pz = 0.5*px**2\<close> and
  \<^verbatim>\<open>gamma = np.sqrt(1 + px**2 + pz**2)\<close>.
\<close>

definition momentum_px :: "real list \<Rightarrow> real list" where
  "momentum_px wave = wave"

definition momentum_pz :: "real list \<Rightarrow> real list" where
  "momentum_pz p = map (\<lambda>v. 0.5 * v ^ 2) p"

definition lorentz_gamma :: "real list \<Rightarrow> real list \<Rightarrow> real list" where
  "lorentz_gamma p q =
     map sqrt (map2 (+) (map (\<lambda>v. 1 + v ^ 2) p) (map (\<lambda>v. v ^ 2) q))"

text \<open>
  Cell "numerical solutions for x and z":
  \<^verbatim>\<open>x = -nt.cumtrapz(px, initial=0.)*dxi\<close>, and the same for \<^verbatim>\<open>z\<close>
  from \<^verbatim>\<open>pz\<close>.
\<close>

definition trajectory :: "real list \<Rightarrow> real \<Rightarrow> real list" where
  "trajectory p step = map (\<lambda>c. - c * step) (cumtrapz p 0)"

text \<open>
  Cell "analytic solutions": \<^verbatim>\<open>xan = a_*np.cos(xi)\<close>,
  \<^verbatim>\<open>zdrift = -0.125*np.sqrt(pi/2)*a_0**2*tau*(erf(np.sqrt(2)*(xi - xi0)/tau) - 1.)\<close>
  and \<^verbatim>\<open>zan = zdrift + 0.125*a_**2.*np.sin(2.0*xi)\<close>. The closed form of the
  drift at one phase is \<open>drift_form\<close>; the array applies it to every grid point.
\<close>

definition analytic_x :: "real list \<Rightarrow> real list \<Rightarrow> real list" where
  "analytic_x env xs = map2 (*) env (map cos xs)"

definition drift_form :: "real \<Rightarrow> real \<Rightarrow> real \<Rightarrow> real \<Rightarrow> real" where
  "drift_form a0 tau xi0 v =
     - 0.125 * sqrt (pi / 2) * a0 ^ 2 * tau * (erf (sqrt 2 * (v - xi0) / tau) - 1)"

definition analytic_drift :: "real \<Rightarrow> real \<Rightarrow> real \<Rightarrow> real list \<Rightarrow> real list" where
  "analytic_drift a0 tau xi0 xs = map (drift_form a0 tau xi0) xs"

definition analytic_z :: "real list \<Rightarrow> real list \<Rightarrow> real list \<Rightarrow> real list" where
  "analytic_z drift env xs =
     map2 (+) drift (map2 (*) (map (\<lambda>v. 0.125 * v ^ 2) env) (map (\<lambda>v. sin (2 * v)) xs))"

subsection \<open>The whole run\<close>

text \<open>
  The variables of the notebook after the last cell; \<open>'v\<close> is the type of one array
  entry.
\<close>

record 'v notebook =
  xi :: "'v list"
  dxi :: 'v
  a_env :: "'v list"
  a_wave :: "'v list"
  px :: "'v list"
  pz :: "'v list"
  gamma :: "'v list"
  x_num :: "'v list"
  z_num :: "'v list"
  xan :: "'v list"
  zdrift :: "'v list"
  zan :: "'v list"

text \<open>
  The cells in order. Only the grid cell can raise; what it raises ends the run.
\<close>

definition run :: "real \<Rightarrow> real \<Rightarrow> real \<Rightarrow> int \<Rightarrow> error + real notebook" where
  "run a0 tau xi0 Nint =
     (case grid tau Nint of
        Inl e \<Rightarrow> Inl e
      | Inr (xs, step) \<Rightarrow>
          let env = envelope a0 tau xi0 xs;
              wave = waveform env xs;
              p = momentum_px wave;
              q = momentum_pz p;
              drift = analytic_drift a0 tau xi0 xs
          in Inr \<lparr> xi = xs, dxi = step, a_env = env, a_wave = wave,
                   px = p, pz = q, gamma = lorentz_gamma p q,
                   x_num = trajectory p step, z_num = trajectory q step,
                   xan = analytic_x env xs, zdrift = drift,
                   zan = analytic_z drift env xs \<rparr>)"

subsection \<open>The cells on values that may be non-finite\<close>

text \<open>
  A float is also one of three special values. \<open>fval\<close> adds them to the reals, and
  the operations below follow the rules of IEEE 754 for them as numpy applies them to
  arrays: an invalid operation (\<open>0 / 0\<close>, \<open>\<infinity> - \<infinity>\<close>, \<open>0 * \<infinity>\<close>, \<open>\<infinity> / \<infinity>\<close>, the sine
  or cosine of an infinity, the square root of a negative number) gives NaN, a non-zero
  number divided by zero gives an infinity, and NaN in gives NaN out. numpy reports these
  with a \<^verbatim>\<open>RuntimeWarning\<close> and goes on, so no operation here has an error
  result. Finite values keep the exact arithmetic. Zero carries no sign: a zero divisor
  counts as \<^verbatim>\<open>+0.0\<close>, which is what \<^verbatim>\<open>tau**2\<close> is when \<^verbatim>\<open>tau\<close> is
  zero.
\<close>

datatype fval = Fin real | PInf | NInf | NaN

definition signed_inf :: "bool \<Rightarrow> fval" where
  "signed_inf positive = (if positive then PInf else NInf)"

fun fneg :: "fval \<Rightarrow> fval" where
  "fneg (Fin x) = Fin (- x)"
| "fneg PInf = NInf"
| "fneg NInf = PInf"
| "fneg NaN = NaN"

fun fadd :: "fval \<Rightarrow> fval \<Rightarrow> fval" where
  "fadd NaN v = NaN"
| "fadd u NaN = NaN"
| "fadd (Fin x) (Fin y) = Fin (x + y)"
| "fadd (Fin x) v = v"
| "fadd u (Fin y) = u"
| "fadd PInf PInf = PInf"
| "fadd NInf NInf = NInf"
| "fadd PInf NInf = NaN"
| "fadd NInf PInf = NaN"

definition fsub :: "fval \<Rightarrow> fval \<Rightarrow> fval" where
  "fsub u v = fadd u (fneg v)"

fun fmul :: "fval \<Rightarrow> fval \<Rightarrow> fval" where
  "fmul NaN v = NaN"
| "fmul u NaN = NaN"
| "fmul (Fin x) (Fin y) = Fin (x * y)"
| "fmul (Fin x) PInf = (if x = 0 then NaN else signed_inf (0 < x))"
| "fmul (Fin x) NInf = (if x = 0 then NaN else signed_inf (x < 0))"
| "fmul PInf (Fin y) = (if y = 0 then NaN else signed_inf (0 < y))"
| "fmul NInf (Fin y) = (if y = 0 then NaN else signed_inf (y < 0))"
| "fmul PInf PInf = PInf"
| "fmul NInf NInf = PInf"
| "fmul PInf NInf = NInf"
| "fmul NInf PInf = NInf"

fun fdiv :: "fval \<Rightarrow> fval \<Rightarrow> fval" where
  "fdiv NaN v = NaN"
| "fdiv u NaN = NaN"
| "fdiv (Fin x) (Fin y) =
     (if y = 0 then (if x = 0 then NaN else signed_inf (0 < x)) else Fin (x / y))"
| "fdiv (Fin x) v = Fin 0"
| "fdiv PInf (Fin y) = signed_inf (0 \<le> y)"
| "fdiv NInf (Fin y) = signed_inf (y < 0)"
| "fdiv u v = NaN"

definition fpow2 :: "fval \<Rightarrow> fval" where
  "fpow2 v = fmul v v"

fun fexp :: "fval \<Rightarrow> fval" where
  "fexp (Fin x) = Fin (exp x)"
| "fexp PInf = PInf"
| "fexp NInf = Fin 0"
| "fexp NaN = NaN"

fun fsin :: "fval \<Rightarrow> fval" where
  "fsin (Fin x) = Fin (sin x)"
| "fsin v = NaN"

fun fcos :: "fval \<Rightarrow> fval" where
  "fcos (Fin x) = Fin (cos x)"
| "fcos v = NaN"

fun fsqrt :: "fval \<Rightarrow> fval" where
  "fsqrt (Fin x) = (if x < 0 then NaN else Fin (sqrt x))"
| "fsqrt PInf = PInf"
| "fsqrt v = NaN"

fun ferf :: "fval \<Rightarrow> fval" where
  "ferf (Fin x) = Fin (erf x)"
| "ferf PInf = Fin 1"
| "ferf NInf = Fin (- 1)"
| "ferf NaN = NaN"

text \<open>
  The cells again, entry by entry as above, with these operations. The scalars
  \<^verbatim>\<open>a_0\<close>, \<^verbatim>\<open>tau\<close> and \<^verbatim>\<open>xi0\<close> are finite numbers, and so is what
  Python computes from them alone (\<^verbatim>\<open>tau**2\<close>, \<^verbatim>\<open>4*tau\<close>,
  \<^verbatim>\<open>-0.125*np.sqrt(pi/2)*a_0**2*tau\<close>). The grid cell divides only by
  \<^verbatim>\<open>Nint - 1\<close>, and only when that is positive, so its grid and its step are the finite
  ones of \<open>grid\<close>.
\<close>

definition envelope_nf :: "real \<Rightarrow> real \<Rightarrow> real \<Rightarrow> fval list \<Rightarrow> fval list" where
  "envelope_nf a0 tau xi0 xs =
     map (\<lambda>v. fmul (Fin a0) (fexp (fdiv (fneg (fpow2 (fsub v (Fin xi0)))) (Fin (tau ^ 2))))) xs"

definition waveform_nf :: "fval list \<Rightarrow> fval list \<Rightarrow> fval list" where
  "waveform_nf env xs = map2 fmul env (map fsin xs)"

definition momentum_pz_nf :: "fval list \<Rightarrow> fval list" where
  "momentum_pz_nf p = map (\<lambda>v. fmul (Fin 0.5) (fpow2 v)) p"

definition lorentz_gamma_nf :: "fval list \<Rightarrow> fval list \<Rightarrow> fval list" where
  "lorentz_gamma_nf p q =
     map fsqrt (map2 fadd (map (\<lambda>v. fadd (Fin 1) (fpow2 v)) p) (map fpow2 q))"

fun cumsum_from_nf :: "fval \<Rightarrow> fval list \<Rightarrow> fval list" where
  "cumsum_from_nf s [] = []"
| "cumsum_from_nf s (v # vs) = fadd s v # cumsum_from_nf (fadd s v) vs"

definition cumsum_nf :: "fval list \<Rightarrow> fval list" where
  "cumsum_nf vs = cumsum_from_nf (Fin 0) vs"

definition cumtrapz_nf :: "fval list \<Rightarrow> fval \<Rightarrow> fval list" where
  "cumtrapz_nf y initial =
     initial #
     cumsum_nf (map (\<lambda>s. fdiv (fmul (Fin 1) s) (Fin 2)) (map2 fadd (tl y) (butlast y)))"

definition trajectory_nf :: "fval list \<Rightarrow> fval \<Rightarrow> fval list" where
  "trajectory_nf p step = map (\<lambda>c. fmul (fneg c) step) (cumtrapz_nf p (Fin 0))"

definition analytic_x_nf :: "fval list \<Rightarrow> fval list \<Rightarrow> fval list" where
  "analytic_x_nf env xs = map2 fmul env (map fcos xs)"

definition drift_form_nf :: "real \<Rightarrow> real \<Rightarrow> real \<Rightarrow> fval \<Rightarrow> fval" where
  "drift_form_nf a0 tau xi0 v =
     fmul (Fin (- 0.125 * sqrt (pi / 2) * a0 ^ 2 * tau))
       (fsub (ferf (fdiv (fmul (Fin (sqrt 2)) (fsub v (Fin xi0))) (Fin tau))) (Fin 1))"

definition analytic_drift_nf :: "real \<Rightarrow> real \<Rightarrow> real \<Rightarrow> fval list \<Rightarrow> fval list" where
  "analytic_drift_nf a0 tau xi0 xs = map (drift_form_nf a0 tau xi0) xs"

definition analytic_z_nf :: "fval list \<Rightarrow> fval list \<Rightarrow> fval list \<Rightarrow> fval list" where
  "analytic_z_nf drift env xs =
     map2 fadd drift
       (map2 fmul (map (\<lambda>v. fmul (Fin 0.125) (fpow2 v)) env)
          (map (\<lambda>v. fsin (fmul (Fin 2) v)) xs))"

definition run_nf :: "real \<Rightarrow> real \<Rightarrow> real \<Rightarrow> int \<Rightarrow> error + fval notebook" where
  "run_nf a0 tau xi0 Nint =
     (case grid tau Nint of
        Inl e \<Rightarrow> Inl e
      | Inr (xs, step) \<Rightarrow>
          let grid_nf = map Fin xs;
              env = envelope_nf a0 tau xi0 grid_nf;
              wave = waveform_nf env grid_nf;
              p = wave;
              q = momentum_pz_nf p;
              drift = analytic_drift_nf a0 tau xi0 grid_nf
          in Inr \<lparr> xi = grid_nf, dxi = Fin step, a_env = env, a_wave = wave,
                   px = p, pz = q, gamma = lorentz_gamma_nf p q,
                   x_num = trajectory_nf p (Fin step), z_num = trajectory_nf q (Fin step),
                   xan = analytic_x_nf env grid_nf, zdrift = drift,
                   zan = analytic_z_nf drift env grid_nf \<rparr>)"

text \<open>A finite notebook seen as one of \<open>fval\<close> entries.\<close>

definition finite_notebook :: "real notebook \<Rightarrow> fval notebook" where
  "finite_notebook st =
     \<lparr> xi = map Fin (xi st), dxi = Fin (dxi st), a_env = map Fin (a_env st),
       a_wave = map Fin (a_wave st), px = map Fin (px st), pz = map Fin (pz st),
       gamma = map Fin (gamma st), x_num = map Fin (x_num st), z_num = map Fin (z_num st),
       xan = map Fin (xan st), zdrift = map Fin (zdrift st), zan = map Fin (zan st) \<rparr>"

subsection \<open>Auxiliary functions for the limits of the error function\<close>

text \<open>
  The values of \<open>erf\<close> at infinity come from comparing the integral of
  \<open>exp (- t\<^sup>2)\<close> with integrals of powers that have closed antiderivatives.
  \<open>gauss_int\<close> is the antiderivative of \<open>exp (- t\<^sup>2)\<close> that vanishes at 0;
  \<open>sin_int m\<close>, \<open>poly_int n\<close> and \<open>rat_int j\<close> are the antiderivatives
  vanishing at 0 of \<open>sin t ^ m\<close>, of \<open>(1 - t\<^sup>2) ^ n\<close> and of
  \<open>1 / (1 + t\<^sup>2) ^ (j + 1)\<close>, each by its reduction formula; \<open>wallis m\<close> is the
  integral of \<open>sin t ^ m\<close> from 0 to \<open>pi / 2\<close>.
\<close>

definition gauss_int :: "real \<Rightarrow> real" where
  "gauss_int x = sqrt pi / 2 * erf x"

fun wallis :: "nat \<Rightarrow> real" where
  "wallis 0 = pi / 2"
| "wallis (Suc 0) = 1"
| "wallis (Suc (Suc m)) = real (Suc m) / real (Suc (Suc m)) * wallis m"

fun sin_int :: "nat \<Rightarrow> real \<Rightarrow> real" where
  "sin_int 0 x = x"
| "sin_int (Suc 0) x = 1 - cos x"
| "sin_int (Suc (Suc m)) x =
     (- cos x * sin x ^ Suc m + real (Suc m) * sin_int m x) / real (Suc (Suc m))"

fun poly_int :: "nat \<Rightarrow> real \<Rightarrow> real" where
  "poly_int 0 x = x"
| "poly_int (Suc n) x =
     (x * (1 - x ^ 2) ^ Suc n + real (2 * Suc n) * poly_int n x) / real (2 * Suc n + 1)"

fun rat_int :: "nat \<Rightarrow> real \<Rightarrow> real" where
  "rat_int 0 x = arctan x"
| "rat_int (Suc j) x =
     (x * inverse (1 + x ^ 2) ^ Suc j + real (2 * j + 1) * rat_int j x) / real (2 * Suc j)"

section \<open>Facts about the library operations\<close>

lemma linspace_Inr:
  "0 \<le> num \<Longrightarrow> \<exists>xs. linspace start stop num = Inr xs \<and> length xs = nat num"
  by (simp add: linspace_def Let_def)

lemma linspace_nth:
  assumes "2 \<le> num" "i < nat num"
  shows "\<exists>xs. linspace start stop num = Inr xs \<and> length xs = nat num \<and>
           xs ! i = start + real i * ((stop - start) / real (nat num - 1))"
proof -
  have n: "1 < nat num" "0 < nat num - 1" using assms by auto
  show ?thesis
  proof (cases "i = nat num - 1")
    case True
    have "real (nat num - 1) * ((stop - start) / real (nat num - 1)) = stop - start"
      using n by simp
    then show ?thesis using assms n True
      by (simp add: linspace_def Let_def)
  next
    case False
    then show ?thesis using assms n
      by (simp add: linspace_def Let_def algebra_simps)
  qed
qed

lemma linspace_points:
  assumes "2 \<le> num"
  shows "\<exists>xs. linspace start stop num = Inr xs \<and> length xs = nat num \<and>
           (\<forall>i<nat num. xs ! i = start + real i * ((stop - start) / real (nat num - 1)))"
proof -
  obtain xs where xs: "linspace start stop num = Inr xs" "length xs = nat num"
    using linspace_Inr[of num start stop] assms by auto
  have "\<forall>i<nat num. xs ! i = start + real i * ((stop - start) / real (nat num - 1))"
    using linspace_nth[OF assms, of _ start stop] xs by auto
  with xs show ?thesis by blast
qed

lemma getitem_nat:
  "getitem arr (int k) = (if k < length arr then Inr (arr ! k) else Inl IndexError)"
  by (simp add: getitem_def Let_def)

lemma grid_short: "0 \<le> Nint \<Longrightarrow> Nint < 3 \<Longrightarrow> grid tau Nint = Inl IndexError"
proof -
  assume a: "0 \<le> Nint" "Nint < 3"
  then obtain xs where xs: "linspace (4 * tau) (- 4 * tau) Nint = Inr xs" "length xs = nat Nint"
    using linspace_Inr by blast
  have "getitem xs 2 = Inl IndexError"
    using getitem_nat[of xs 2] xs a by simp
  with xs show ?thesis by (simp add: grid_def)
qed

lemma grid_negative: "Nint < 0 \<Longrightarrow> grid tau Nint = Inl ValueError"
  by (simp add: grid_def linspace_def)

lemma grid_points:
  assumes "3 \<le> Nint"
  shows "\<exists>xs. grid tau Nint = Inr (xs, - 8 * tau / real (nat Nint - 1)) \<and>
           linspace (4 * tau) (- 4 * tau) Nint = Inr xs \<and> length xs = nat Nint \<and>
           (\<forall>i<nat Nint. xs ! i = 4 * tau + real i * (- 8 * tau / real (nat Nint - 1)))"
proof -
  have two: "2 \<le> Nint" using assms by simp
  obtain xs where xs: "linspace (4 * tau) (- 4 * tau) Nint = Inr xs" "length xs = nat Nint"
    and pts: "\<forall>i<nat Nint. xs ! i = 4 * tau + real i * ((- 4 * tau - 4 * tau) / real (nat Nint - 1))"
    using linspace_points[OF two, of "4 * tau" "- 4 * tau"] by blast
  have pts': "\<forall>i<nat Nint. xs ! i = 4 * tau + real i * (- 8 * tau / real (nat Nint - 1))"
    using pts by simp
  have g2: "getitem xs 2 = Inr (xs ! 2)" and g1: "getitem xs 1 = Inr (xs ! 1)"
    using getitem_nat[of xs 2] getitem_nat[of xs 1] xs assms by simp_all
  have "xs ! 2 - xs ! 1 = - 8 * tau / real (nat Nint - 1)"
    using pts' assms by simp
  with xs g1 g2 pts' show ?thesis by (simp add: grid_def)
qed

lemma cumsum_from_length: "length (cumsum_from s vs) = length vs"
  by (induction vs arbitrary: s) auto

lemma cumsum_from_nth:
  "k < length vs \<Longrightarrow> cumsum_from s vs ! k = s + (\<Sum>i<Suc k. vs ! i)"
proof (induction vs arbitrary: s k)
  case Nil
  then show ?case by simp
next
  case (Cons v vs)
  show ?case
  proof (cases k)
    case 0
    then show ?thesis by simp
  next
    case (Suc j)
    then have "j < length vs" using Cons.prems by simp
    from Cons.IH[OF this, of "s + v"] Suc
    show ?thesis
      by (simp add: sum.lessThan_Suc_shift del: sum.lessThan_Suc)
  qed
qed

lemma cumtrapz_length: "length (cumtrapz y c) = Suc (length y - 1)"
  by (simp add: cumtrapz_def cumsum_def cumsum_from_length)

lemma cumtrapz_0: "cumtrapz y c ! 0 = c"
  by (simp add: cumtrapz_def)

lemma cumtrapz_nth:
  assumes "1 \<le> k" "k < length y"
  shows "cumtrapz y c ! k = (\<Sum>i<k. (y ! (i + 1) + y ! i) / 2)"
proof -
  let ?L = "map (\<lambda>s. 1 * s / 2) (map2 (+) (tl y) (butlast y))"
  have len: "length ?L = length y - 1" by simp
  have nth: "?L ! i = (y ! (i + 1) + y ! i) / 2" if "i < length y - 1" for i
    using that by (simp add: nth_tl nth_butlast)
  obtain j where j: "k = Suc j" using assms by (cases k) auto
  then have jl: "j < length ?L" using assms len by simp
  have "cumtrapz y c ! k = cumsum ?L ! j"
    using j by (simp add: cumtrapz_def)
  also have "\<dots> = 0 + (\<Sum>i<Suc j. ?L ! i)"
    unfolding cumsum_def by (rule cumsum_from_nth[OF jl])
  also have "(\<Sum>i<Suc j. ?L ! i) = (\<Sum>i<Suc j. (y ! (i + 1) + y ! i) / 2)"
    by (rule sum.cong) (use jl len nth in auto)
  finally show ?thesis using j by simp
qed

section \<open>Facts about the cells\<close>

lemma trajectory_length: "length (trajectory p step) = Suc (length p - 1)"
  by (simp add: trajectory_def cumtrapz_length)

lemma trajectory_0: "trajectory p step ! 0 = 0"
  by (simp add: trajectory_def cumtrapz_def)

lemma trajectory_nth:
  assumes "1 \<le> k" "k < length p"
  shows "trajectory p step ! k = (\<Sum>i<k. - 0.5 * (p ! i + p ! (i + 1)) * step)"
proof -
  have "k < length (cumtrapz p 0)" using assms by (simp add: cumtrapz_length)
  then have "trajectory p step ! k = - (cumtrapz p 0 ! k) * step"
    by (simp add: trajectory_def)
  also have "\<dots> = - (\<Sum>i<k. (p ! (i + 1) + p ! i) / 2) * step"
    using cumtrapz_nth[OF assms, of 0] by simp
  also have "\<dots> = (\<Sum>i<k. - ((p ! (i + 1) + p ! i) / 2) * step)"
    by (simp add: sum_distrib_right sum_negf)
  also have "\<dots> = (\<Sum>i<k. - 0.5 * (p ! i + p ! (i + 1)) * step)"
    by (rule sum.cong) (simp_all add: algebra_simps)
  finally show ?thesis .
qed

lemma trajectory_step:
  assumes "Suc k < length p"
  shows "trajectory p step ! Suc k = trajectory p step ! k - 0.5 * (p ! k + p ! Suc k) * step"
proof (cases k)
  case 0
  then show ?thesis using trajectory_nth[of 1 p step] assms trajectory_0[of p step] by simp
next
  case (Suc j)
  then show ?thesis
    using trajectory_nth[of "Suc k" p step] trajectory_nth[of k p step] assms by simp
qed

lemma run_fields:
  assumes "grid tau Nint = Inr (xs, step)"
  shows "run a0 tau xi0 Nint = Inr
          \<lparr> xi = xs, dxi = step, a_env = envelope a0 tau xi0 xs,
            a_wave = waveform (envelope a0 tau xi0 xs) xs,
            px = momentum_px (waveform (envelope a0 tau xi0 xs) xs),
            pz = momentum_pz (momentum_px (waveform (envelope a0 tau xi0 xs) xs)),
            gamma = lorentz_gamma (momentum_px (waveform (envelope a0 tau xi0 xs) xs))
                      (momentum_pz (momentum_px (waveform (envelope a0 tau xi0 xs) xs))),
            x_num = trajectory (momentum_px (waveform (envelope a0 tau xi0 xs) xs)) step,
            z_num = trajectory
                      (momentum_pz (momentum_px (waveform (envelope a0 tau xi0 xs) xs))) step,
            xan = analytic_x (envelope a0 tau xi0 xs) xs,
            zdrift = analytic_drift a0 tau xi0 xs,
            zan = analytic_z (analytic_drift a0 tau xi0 xs) (envelope a0 tau xi0 xs) xs \<rparr>"
  using assms by (simp add: run_def Let_def)

lemma envelope_nth:
  "i < length xs \<Longrightarrow> envelope a0 tau xi0 xs ! i = a0 * exp (- ((xs ! i - xi0) ^ 2) / tau ^ 2)"
  by (simp add: envelope_def)

lemma waveform_nth:
  "i < length xs \<Longrightarrow> length env = length xs \<Longrightarrow> waveform env xs ! i = env ! i * sin (xs ! i)"
  by (simp add: waveform_def)

lemma momentum_pz_nth: "i < length p \<Longrightarrow> momentum_pz p ! i = 0.5 * (p ! i) ^ 2"
  by (simp add: momentum_pz_def)

lemma lorentz_gamma_nth:
  "i < length p \<Longrightarrow> length q = length p \<Longrightarrow>
     lorentz_gamma p q ! i = sqrt (1 + (p ! i) ^ 2 + (q ! i) ^ 2)"
  by (simp add: lorentz_gamma_def)

lemma analytic_x_nth:
  "i < length xs \<Longrightarrow> length env = length xs \<Longrightarrow> analytic_x env xs ! i = env ! i * cos (xs ! i)"
  by (simp add: analytic_x_def)

lemma analytic_drift_nth:
  "i < length xs \<Longrightarrow> analytic_drift a0 tau xi0 xs ! i = drift_form a0 tau xi0 (xs ! i)"
  by (simp add: analytic_drift_def)

lemma analytic_z_nth:
  "i < length xs \<Longrightarrow> length env = length xs \<Longrightarrow> length drift = length xs \<Longrightarrow>
     analytic_z drift env xs ! i = drift ! i + 0.125 * (env ! i) ^ 2 * sin (2 * xs ! i)"
  by (simp add: analytic_z_def)

lemma array_lengths [simp]:
  "length (envelope a0 tau xi0 xs) = length xs"
  "length env = length xs \<Longrightarrow> length (waveform env xs) = length xs"
  "length (momentum_px w) = length w"
  "length (momentum_pz p) = length p"
  "length q = length p \<Longrightarrow> length (lorentz_gamma p q) = length p"
  "length env = length xs \<Longrightarrow> length (analytic_x env xs) = length xs"
  "length (analytic_drift a0 tau xi0 xs) = length xs"
  "length env = length xs \<Longrightarrow> length drift = length xs \<Longrightarrow>
     length (analytic_z drift env xs) = length xs"
  by (simp_all add: envelope_def waveform_def momentum_px_def momentum_pz_def
        lorentz_gamma_def analytic_x_def analytic_drift_def analytic_z_def)

section \<open>The error function is differentiable and increasing\<close>

lemma erf_terms_odd:
  "(\<lambda>n. erf_coeffs n * x ^ n) =
   (\<lambda>n. if even n then 0
        else 2 / sqrt pi * (- 1) ^ ((n - 1) div 2) /
               (fact ((n - 1) div 2) * real (2 * ((n - 1) div 2) + 1)) *
               x ^ (2 * ((n - 1) div 2) + 1))"
proof
  fix n :: nat
  show "erf_coeffs n * x ^ n =
    (if even n then 0
     else 2 / sqrt pi * (- 1) ^ ((n - 1) div 2) /
            (fact ((n - 1) div 2) * real (2 * ((n - 1) div 2) + 1)) *
            x ^ (2 * ((n - 1) div 2) + 1))"
  proof (cases "even n")
    case True
    then show ?thesis by (simp add: erf_coeffs_def)
  next
    case False
    then have "2 * ((n - 1) div 2) + 1 = n" by presburger
    with False show ?thesis by (simp add: erf_coeffs_def)
  qed
qed

lemma erf_series_summable: "summable (\<lambda>n. erf_coeffs n * x ^ n)"
proof -
  define g where
    "g k = 2 / sqrt pi * (- 1) ^ k / (fact k * real (2 * k + 1)) * x ^ (2 * k + 1)" for k
  define b where "b k = 2 / sqrt pi * \<bar>x\<bar> * ((x ^ 2) ^ k /\<^sub>R fact k)" for k
  have "summable (\<lambda>k. (x ^ 2) ^ k /\<^sub>R fact k)"
    using exp_converges[of "x ^ 2"] by (rule sums_summable)
  then have sb: "summable b"
    unfolding b_def by (rule summable_mult)
  have le: "norm (g k) \<le> b k" for k
  proof -
    have "norm (g k) = 2 / sqrt pi * \<bar>x\<bar> * ((x ^ 2) ^ k / fact k) / real (2 * k + 1)"
      by (simp add: g_def norm_mult norm_divide norm_power power_mult abs_mult power_abs)
    also have "\<dots> \<le> 2 / sqrt pi * \<bar>x\<bar> * ((x ^ 2) ^ k / fact k) / 1"
      by (intro divide_left_mono mult_nonneg_nonneg) simp_all
    finally show ?thesis by (simp add: b_def divide_inverse mult.commute)
  qed
  have "summable g" by (rule summable_comparison_test'[OF sb, of 0]) (rule le)
  then have "g sums suminf g" by (rule summable_sums)
  then have "(\<lambda>n. if even n then 0 else g ((n - 1) div 2)) sums suminf g"
    by (rule sums_if')
  then have "summable (\<lambda>n. if even n then 0 else g ((n - 1) div 2))"
    by (rule sums_summable)
  then show ?thesis
    unfolding erf_terms_odd g_def .
qed

lemma diffs_erf_coeffs:
  "diffs erf_coeffs n = (if even n then 2 / sqrt pi * (- 1) ^ (n div 2) / fact (n div 2) else 0)"
  by (simp add: diffs_def erf_coeffs_def)

lemma erf_deriv_series: "(\<Sum>n. diffs erf_coeffs n * x ^ n) = 2 / sqrt pi * exp (- (x ^ 2))"
proof -
  define f where "f k = 2 / sqrt pi * ((- (x ^ 2)) ^ k /\<^sub>R fact k)" for k
  have "(\<lambda>k. (- (x ^ 2)) ^ k /\<^sub>R fact k) sums exp (- (x ^ 2))"
    by (rule exp_converges)
  then have f: "f sums (2 / sqrt pi * exp (- (x ^ 2)))"
    unfolding f_def by (rule sums_mult)
  have z: "(\<lambda>k::nat. 0::real) sums 0" by simp
  have "(\<lambda>n. if even n then f (n div 2) else 0) sums (0 + 2 / sqrt pi * exp (- (x ^ 2)))"
    using sums_if[OF z f] by simp
  moreover have "(\<lambda>n. if even n then f (n div 2) else 0) = (\<lambda>n. diffs erf_coeffs n * x ^ n)"
  proof
    fix n :: nat
    show "(if even n then f (n div 2) else 0) = diffs erf_coeffs n * x ^ n"
    proof (cases "even n")
      case True
      then obtain k where k: "n = 2 * k" by (auto elim: evenE)
      have "(- (x ^ 2)) ^ k = (- 1) ^ k * x ^ (2 * k)"
        by (simp add: power_mult power_minus[of "x ^ 2"])
      then show ?thesis
        using k by (simp add: diffs_erf_coeffs f_def divide_inverse mult_ac)
    next
      case False
      then show ?thesis by (simp add: diffs_erf_coeffs)
    qed
  qed
  ultimately show ?thesis by (simp add: sums_iff)
qed

lemma erf_has_derivative: "(erf has_field_derivative 2 / sqrt pi * exp (- (x ^ 2))) (at x)"
proof -
  have "((\<lambda>x. \<Sum>n. erf_coeffs n * x ^ n) has_field_derivative (\<Sum>n. diffs erf_coeffs n * x ^ n)) (at x)"
    by (rule termdiffs_strong_converges_everywhere) (rule erf_series_summable)
  then show ?thesis
    unfolding erf_deriv_series erf_def[abs_def] .
qed

lemma erf_0: "erf 0 = 0"
proof -
  have "(\<lambda>n. erf_coeffs n * 0 ^ n) = (\<lambda>n. 0)"
    by (rule ext) (simp add: erf_coeffs_def power_0_left)
  then show ?thesis by (simp add: erf_def)
qed

lemma erf_strict_mono: "x < y \<Longrightarrow> erf x < erf y"
proof (rule DERIV_pos_imp_increasing[of x y erf])
  fix t :: real
  have "0 < 2 / sqrt pi * exp (- (t ^ 2))" by simp
  then show "\<exists>d. (erf has_real_derivative d) (at t) \<and> 0 < d"
    using erf_has_derivative by blast
qed

lemma erf_mono: "x \<le> y \<Longrightarrow> erf x \<le> erf y"
  using erf_strict_mono[of x y] by (cases "x = y") auto

lemma erf_pos: "0 < x \<Longrightarrow> 0 < erf x"
  using erf_strict_mono[of 0 x] by (simp add: erf_0)

section \<open>Wallis integrals\<close>

text \<open>
  \<open>sin_int m\<close> has derivative \<open>sin x ^ m\<close>, vanishes at 0 and is \<open>wallis m\<close> at
  \<open>pi / 2\<close>. Comparing derivatives on \<open>[0, pi / 2]\<close> shows that \<open>wallis\<close>
  decreases; with the product \<open>wallis m * wallis (m + 1) = pi / (2 * (m + 1))\<close> this
  encloses \<open>(wallis m)\<^sup>2\<close> between \<open>pi / (2 * (m + 1))\<close> and \<open>pi / (2 * m)\<close>.
\<close>

lemma deriv_le_imp_le:
  fixes f g :: "real \<Rightarrow> real"
  assumes ab: "a \<le> b"
    and df: "\<And>x. a \<le> x \<Longrightarrow> x \<le> b \<Longrightarrow> (f has_real_derivative f' x) (at x)"
    and dg: "\<And>x. a \<le> x \<Longrightarrow> x \<le> b \<Longrightarrow> (g has_real_derivative g' x) (at x)"
    and le: "\<And>x. a \<le> x \<Longrightarrow> x \<le> b \<Longrightarrow> f' x \<le> g' x"
    and start: "f a = g a"
  shows "f b \<le> g b"
proof -
  have "(\<lambda>x. g x - f x) a \<le> (\<lambda>x. g x - f x) b"
  proof (rule DERIV_nonneg_imp_nondecreasing[OF ab])
    fix x assume x: "a \<le> x" "x \<le> b"
    have "((\<lambda>x. g x - f x) has_real_derivative g' x - f' x) (at x)"
      by (intro derivative_intros dg df x)
    moreover have "0 \<le> g' x - f' x" using le[OF x] by simp
    ultimately show "\<exists>y. ((\<lambda>x. g x - f x) has_real_derivative y) (at x) \<and> 0 \<le> y"
      by blast
  qed
  then show ?thesis using start by simp
qed

lemma sin_int_deriv: "(sin_int m has_real_derivative sin x ^ m) (at x)"
proof (induction m rule: wallis.induct)
  case 1
  have "sin_int 0 = (\<lambda>x. x)" by (rule ext) simp
  then show ?case by simp
next
  case 2
  have eq: "sin_int (Suc 0) = (\<lambda>x. 1 - cos x)" by (rule ext) simp
  show ?case unfolding eq by (auto intro!: derivative_eq_intros)
next
  case (3 m)
  have eq: "sin_int (Suc (Suc m)) =
      (\<lambda>x. (- cos x * sin x ^ Suc m + real (Suc m) * sin_int m x) / real (Suc (Suc m)))"
    by (rule ext) simp
  have c2: "cos x ^ 2 = 1 - sin x ^ 2"
    using sin_cos_squared_add[of x] by (simp add: algebra_simps)
  have "((\<lambda>x. sin x ^ Suc m) has_real_derivative
      real (Suc m) * (cos x * sin x ^ (Suc m - Suc 0))) (at x)"
    by (rule DERIV_power) (rule DERIV_sin)
  then have d1: "((\<lambda>x. sin x ^ Suc m) has_real_derivative real (Suc m) * sin x ^ m * cos x) (at x)"
    by (simp add: mult_ac)
  have d2: "((\<lambda>x. - cos x) has_real_derivative sin x) (at x)"
    by (auto intro!: derivative_eq_intros)
  have d3: "((\<lambda>x. - cos x * sin x ^ Suc m) has_real_derivative
      sin x * sin x ^ Suc m + (- cos x) * (real (Suc m) * sin x ^ m * cos x)) (at x)"
    using DERIV_mult[OF d2 d1] by (simp add: mult_ac add_ac)
  have d4: "((\<lambda>x. real (Suc m) * sin_int m x) has_real_derivative
      real (Suc m) * sin x ^ m) (at x)"
    by (rule DERIV_cmult) (rule "3")
  have "((\<lambda>x. (- cos x * sin x ^ Suc m + real (Suc m) * sin_int m x) / real (Suc (Suc m)))
      has_real_derivative
        ((sin x * sin x ^ Suc m + (- cos x) * (real (Suc m) * sin x ^ m * cos x))
          + real (Suc m) * sin x ^ m) / real (Suc (Suc m))) (at x)"
    by (rule DERIV_cdivide) (rule DERIV_add[OF d3 d4])
  moreover have "((sin x * sin x ^ Suc m + (- cos x) * (real (Suc m) * sin x ^ m * cos x))
          + real (Suc m) * sin x ^ m) / real (Suc (Suc m)) = sin x ^ Suc (Suc m)"
  proof -
    define k where "k = real (Suc m)"
    define P where "P = sin x ^ m"
    have k1: "real (Suc (Suc m)) = k + 1" and k0: "k + 1 \<noteq> 0"
      by (simp_all add: k_def add_nonneg_eq_0_iff)
    have cc: "cos x * cos x = 1 - sin x * sin x"
      using c2 by (simp add: power2_eq_square)
    have "sin x * (sin x * P) + (- cos x) * (k * P * cos x) + k * P
        = sin x * sin x * P + k * P * (1 - cos x * cos x)"
      by (simp add: algebra_simps)
    also have "\<dots> = (k + 1) * (sin x * sin x * P)"
      unfolding cc by (simp add: algebra_simps)
    finally have "(sin x * (sin x * P) + (- cos x) * (k * P * cos x) + k * P) / (k + 1)
        = sin x * sin x * P"
      using k0 by simp
    then show ?thesis
      unfolding k1 unfolding k_def[symmetric] power_Suc P_def[symmetric] by (simp add: mult_ac)
  qed
  ultimately show ?case unfolding eq by simp
qed

lemma sin_int_0: "sin_int m 0 = 0"
  by (induction m rule: wallis.induct) simp_all

lemma sin_int_pi2: "sin_int m (pi / 2) = wallis m"
  by (induction m rule: wallis.induct) simp_all

lemma wallis_pos: "0 < wallis m"
  by (induction m rule: wallis.induct) simp_all

lemma wallis_product: "wallis m * wallis (Suc m) = pi / (2 * real (Suc m))"
proof (induction m)
  case 0
  show ?case by simp
next
  case (Suc m)
  have "wallis (Suc m) * wallis (Suc (Suc m)) =
      real (Suc m) / real (Suc (Suc m)) * (wallis m * wallis (Suc m))"
    by simp
  also have "\<dots> = real (Suc m) / real (Suc (Suc m)) * (pi / (2 * real (Suc m)))"
    unfolding Suc.IH ..
  also have "\<dots> = pi / (2 * real (Suc (Suc m)))"
  proof -
    have "real (Suc m) \<noteq> 0" "real (Suc (Suc m)) \<noteq> 0" by simp_all
    then show ?thesis by (simp add: divide_simps del: of_nat_Suc)
  qed
  finally show ?case .
qed

lemma wallis_decreasing: "wallis (Suc m) \<le> wallis m"
proof -
  have le: "sin x ^ Suc m \<le> sin x ^ m" if "0 \<le> x" "x \<le> pi / 2" for x
  proof -
    have "0 \<le> sin x" using that by (intro sin_ge_zero) simp_all
    moreover have "sin x \<le> 1" by simp
    ultimately show ?thesis by (intro power_decreasing) simp_all
  qed
  have "sin_int (Suc m) (pi / 2) \<le> sin_int m (pi / 2)"
    by (rule deriv_le_imp_le[of 0 "pi / 2" "sin_int (Suc m)" "\<lambda>x. sin x ^ Suc m"
          "sin_int m" "\<lambda>x. sin x ^ m"])
       (simp_all only: sin_int_deriv sin_int_0 le, simp)
  then show ?thesis by (simp only: sin_int_pi2)
qed

lemma wallis_square_bounds:
  "(wallis (Suc m)) ^ 2 \<le> pi / (2 * real (Suc m))" "pi / (2 * real (Suc m)) \<le> (wallis m) ^ 2"
proof -
  have "(wallis (Suc m)) ^ 2 = wallis (Suc m) * wallis (Suc m)" by (simp add: power2_eq_square)
  also have "\<dots> \<le> wallis m * wallis (Suc m)"
    using wallis_decreasing[of m] wallis_pos[of "Suc m"] by (intro mult_right_mono) simp_all
  finally show "(wallis (Suc m)) ^ 2 \<le> pi / (2 * real (Suc m))"
    unfolding wallis_product .
  have "pi / (2 * real (Suc m)) = wallis m * wallis (Suc m)"
    by (simp only: wallis_product)
  also have "\<dots> \<le> wallis m * wallis m"
    using wallis_decreasing[of m] wallis_pos[of m] by (intro mult_left_mono) simp_all
  finally show "pi / (2 * real (Suc m)) \<le> (wallis m) ^ 2"
    by (simp add: power2_eq_square)
qed

section \<open>Antiderivatives that bound the Gaussian integral\<close>

text \<open>
  From \<open>1 + u \<le> exp u\<close>: \<open>(1 - t\<^sup>2) ^ n \<le> exp (- n * t\<^sup>2)\<close> on \<open>[0, 1]\<close> and
  \<open>exp (- n * t\<^sup>2) \<le> 1 / (1 + t\<^sup>2) ^ n\<close> everywhere. Integrated from 0, with
  \<open>c = sqrt n\<close>, this puts \<open>gauss_int (c * x) / c\<close> between \<open>poly_int n\<close> (up to
  \<open>x = 1\<close>) and \<open>rat_int (n - 1)\<close>; the first is \<open>wallis (2 * n + 1)\<close> at 1, the
  second stays below its limit \<open>wallis (2 * n - 2)\<close>.
\<close>

lemma poly_int_deriv: "(poly_int n has_real_derivative (1 - x ^ 2) ^ n) (at x)"
proof (induction n)
  case 0
  have "poly_int 0 = (\<lambda>x. x)" by (rule ext) simp
  then show ?case by simp
next
  case (Suc n)
  define k where "k = real (2 * Suc n)"
  define u where "u = 1 - x ^ 2"
  have eq: "poly_int (Suc n) = (\<lambda>x. (x * (1 - x ^ 2) ^ Suc n + k * poly_int n x) / (k + 1))"
    by (rule ext) (simp add: k_def)
  have k0: "k + 1 \<noteq> 0" by (simp add: k_def add_nonneg_eq_0_iff)
  have d0: "((\<lambda>x. 1 - x ^ 2) has_real_derivative - (2 * x)) (at x)"
    by (auto intro!: derivative_eq_intros)
  have d1: "((\<lambda>x. (1 - x ^ 2) ^ Suc n) has_real_derivative - (k * x * u ^ n)) (at x)"
    by (rule DERIV_cong[OF DERIV_power[OF d0]]) (simp add: k_def u_def)
  have d2: "((\<lambda>x. x * (1 - x ^ 2) ^ Suc n) has_real_derivative
      1 * (1 - x ^ 2) ^ Suc n + - (k * x * u ^ n) * x) (at x)"
    by (rule DERIV_cong[OF DERIV_mult'[OF DERIV_ident d1]]) (simp add: mult_ac)
  have d3: "((\<lambda>x. k * poly_int n x) has_real_derivative k * u ^ n) (at x)"
    unfolding u_def by (rule DERIV_cmult) (rule Suc.IH)
  have d4: "((\<lambda>x. (x * (1 - x ^ 2) ^ Suc n + k * poly_int n x) / (k + 1)) has_real_derivative
      (1 * (1 - x ^ 2) ^ Suc n + - (k * x * u ^ n) * x + k * u ^ n) / (k + 1)) (at x)"
    by (rule DERIV_cdivide) (rule DERIV_add[OF d2 d3])
  have xx: "x * x = 1 - u" by (simp add: u_def power2_eq_square)
  have "1 * (1 - x ^ 2) ^ Suc n + - (k * x * u ^ n) * x + k * u ^ n
      = u * u ^ n - k * u ^ n * (x * x) + k * u ^ n"
    by (simp add: u_def mult_ac)
  also have "\<dots> = (k + 1) * (u * u ^ n)"
    unfolding xx by (simp add: algebra_simps)
  finally have "(1 * (1 - x ^ 2) ^ Suc n + - (k * x * u ^ n) * x + k * u ^ n) / (k + 1)
      = (1 - x ^ 2) ^ Suc n"
    using k0 by (simp add: u_def)
  with d4 show ?case unfolding eq by simp
qed

lemma poly_int_0: "poly_int n 0 = 0"
  by (induction n) simp_all

lemma poly_int_1: "poly_int n 1 = wallis (2 * n + 1)"
  by (induction n) simp_all

lemma rat_int_deriv: "(rat_int j has_real_derivative inverse (1 + x ^ 2) ^ Suc j) (at x)"
proof (induction j)
  case 0
  have "rat_int 0 = arctan" by (rule ext) simp
  moreover have "(arctan has_real_derivative inverse (1 + x ^ 2)) (at x)"
    by (rule DERIV_arctan)
  ultimately show ?case by simp
next
  case (Suc j)
  define k where "k = real (2 * Suc j)"
  define w where "w = inverse (1 + x ^ 2)"
  have k1: "real (2 * j + 1) = k - 1" by (simp add: k_def)
  have eq: "rat_int (Suc j) =
      (\<lambda>x. (x * inverse (1 + x ^ 2) ^ Suc j + (k - 1) * rat_int j x) / k)"
    by (rule ext) (simp only: rat_int.simps k1 k_def)
  have k0: "k \<noteq> 0" by (simp add: k_def)
  have pos: "1 + x ^ 2 \<noteq> 0" by (simp add: add_nonneg_eq_0_iff)
  have d0: "((\<lambda>x. 1 + x ^ 2) has_real_derivative 2 * x) (at x)"
    by (auto intro!: derivative_eq_intros)
  have d0': "((\<lambda>x. inverse (1 + x ^ 2)) has_real_derivative - (2 * x * (w * w))) (at x)"
    by (rule DERIV_cong[OF DERIV_inverse'[OF d0 pos]]) (simp add: w_def)
  have d1: "((\<lambda>x. inverse (1 + x ^ 2) ^ Suc j) has_real_derivative
      - (k * x * (w * w * w ^ j))) (at x)"
    by (rule DERIV_cong[OF DERIV_power[OF d0']]) (simp add: k_def w_def)
  have d2: "((\<lambda>x. x * inverse (1 + x ^ 2) ^ Suc j) has_real_derivative
      1 * inverse (1 + x ^ 2) ^ Suc j + - (k * x * (w * w * w ^ j)) * x) (at x)"
    by (rule DERIV_cong[OF DERIV_mult'[OF DERIV_ident d1]]) (simp add: mult_ac)
  have d3: "((\<lambda>x. (k - 1) * rat_int j x) has_real_derivative (k - 1) * w ^ Suc j) (at x)"
    unfolding w_def by (rule DERIV_cmult) (rule Suc.IH)
  have d4: "((\<lambda>x. (x * inverse (1 + x ^ 2) ^ Suc j + (k - 1) * rat_int j x) / k)
      has_real_derivative
      (1 * inverse (1 + x ^ 2) ^ Suc j + - (k * x * (w * w * w ^ j)) * x + (k - 1) * w ^ Suc j) / k)
      (at x)"
    by (rule DERIV_cdivide) (rule DERIV_add[OF d2 d3])
  have "(1 + x ^ 2) * w = 1" using pos by (simp add: w_def)
  then have xxw: "x * x * w = 1 - w" by (simp add: algebra_simps power2_eq_square)
  have "1 * inverse (1 + x ^ 2) ^ Suc j + - (k * x * (w * w * w ^ j)) * x + (k - 1) * w ^ Suc j
      = w * w ^ j - k * (w * w ^ j) * (x * x * w) + (k - 1) * (w * w ^ j)"
    by (simp add: w_def mult_ac)
  also have "\<dots> = k * (w * (w * w ^ j))"
    unfolding xxw by (simp add: algebra_simps)
  finally have "(1 * inverse (1 + x ^ 2) ^ Suc j + - (k * x * (w * w * w ^ j)) * x
      + (k - 1) * w ^ Suc j) / k = inverse (1 + x ^ 2) ^ Suc (Suc j)"
    using k0 by (simp add: w_def)
  with d4 show ?case unfolding eq by simp
qed

lemma rat_int_0: "rat_int j 0 = 0"
  by (induction j) simp_all

lemma gauss_int_deriv: "(gauss_int has_real_derivative exp (- (x ^ 2))) (at x)"
proof -
  have "((\<lambda>x. sqrt pi / 2 * erf x) has_real_derivative
      sqrt pi / 2 * (2 / sqrt pi * exp (- (x ^ 2)))) (at x)"
    by (rule DERIV_cmult) (rule erf_has_derivative)
  moreover have "sqrt pi / 2 * (2 / sqrt pi * exp (- (x ^ 2))) = exp (- (x ^ 2))"
    by simp
  ultimately show ?thesis by (simp add: gauss_int_def[abs_def])
qed

lemma gauss_int_0: "gauss_int 0 = 0"
  by (simp add: gauss_int_def erf_0)

lemma scaled_gauss_deriv:
  assumes "c \<noteq> 0"
  shows "((\<lambda>x. gauss_int (c * x) / c) has_real_derivative exp (- ((c * x) ^ 2))) (at x)"
proof -
  have d0: "((\<lambda>x. c * x) has_real_derivative c) (at x)"
    by (rule DERIV_cong[OF DERIV_cmult[OF DERIV_ident]]) simp
  have "((\<lambda>x. gauss_int (c * x)) has_real_derivative exp (- ((c * x) ^ 2)) * c) (at x)"
    by (rule DERIV_chain2[OF gauss_int_deriv d0])
  then have "((\<lambda>x. gauss_int (c * x) / c) has_real_derivative exp (- ((c * x) ^ 2)) * c / c) (at x)"
    by (rule DERIV_cdivide)
  then show ?thesis using assms by simp
qed

lemma exp_scaled: "exp (- ((sqrt (real n) * t) ^ 2)) = exp (- (t ^ 2)) ^ n"
proof -
  have "(sqrt (real n) * t) ^ 2 = real n * t ^ 2"
    by (simp add: power_mult_distrib)
  then have "exp (- ((sqrt (real n) * t) ^ 2)) = exp (real n * (- (t ^ 2)))"
    by simp
  also have "\<dots> = exp (- (t ^ 2)) ^ n"
    by (rule exp_of_nat_mult)
  finally show ?thesis .
qed

lemma gauss_lower_wallis:
  assumes "0 < n"
  shows "sqrt (real n) * wallis (2 * n + 1) \<le> gauss_int (sqrt (real n))"
proof -
  define c where "c = sqrt (real n)"
  have c: "0 < c" using assms by (simp add: c_def)
  have le: "(1 - t ^ 2) ^ n \<le> exp (- ((c * t) ^ 2))" if "0 \<le> t" "t \<le> 1" for t
  proof -
    have "t ^ 2 \<le> 1" using that by (simp add: power_le_one)
    then have "0 \<le> 1 - t ^ 2" by simp
    moreover have "1 - t ^ 2 \<le> exp (- (t ^ 2))"
      using exp_ge_add_one_self[of "- (t ^ 2)"] by simp
    ultimately have "(1 - t ^ 2) ^ n \<le> exp (- (t ^ 2)) ^ n"
      by (simp add: power_mono)
    then show ?thesis unfolding c_def exp_scaled .
  qed
  have "poly_int n 1 \<le> gauss_int (c * 1) / c"
    by (rule deriv_le_imp_le[of 0 1 "poly_int n" "\<lambda>t. (1 - t ^ 2) ^ n"
          "\<lambda>x. gauss_int (c * x) / c" "\<lambda>t. exp (- ((c * t) ^ 2))"])
       (use c le in \<open>simp_all del: power_Suc add: poly_int_deriv scaled_gauss_deriv poly_int_0 gauss_int_0\<close>)
  then have "wallis (2 * n + 1) * c \<le> gauss_int c"
    using c by (simp add: poly_int_1 pos_le_divide_eq)
  then show ?thesis by (simp add: c_def mult.commute)
qed

lemma gauss_upper_rat:
  assumes "0 \<le> x"
  shows "gauss_int (sqrt (real (Suc j)) * x) / sqrt (real (Suc j)) \<le> rat_int j x"
proof -
  define c where "c = sqrt (real (Suc j))"
  have c: "0 < c" unfolding c_def by simp
  have le: "exp (- ((c * t) ^ 2)) \<le> inverse (1 + t ^ 2) ^ Suc j" for t
  proof -
    have "1 + t ^ 2 \<le> exp (t ^ 2)" by (rule exp_ge_add_one_self)
    moreover have "0 < 1 + t ^ 2" by (simp add: add_pos_nonneg)
    ultimately have "inverse (exp (t ^ 2)) \<le> inverse (1 + t ^ 2)"
      by (rule le_imp_inverse_le)
    then have "exp (- (t ^ 2)) \<le> inverse (1 + t ^ 2)" by (simp add: exp_minus)
    then have "exp (- (t ^ 2)) ^ Suc j \<le> inverse (1 + t ^ 2) ^ Suc j"
      by (intro power_mono) simp_all
    then show ?thesis unfolding c_def exp_scaled .
  qed
  have "gauss_int (c * x) / c \<le> rat_int j x"
    by (rule deriv_le_imp_le[of 0 x "\<lambda>x. gauss_int (c * x) / c" "\<lambda>t. exp (- ((c * t) ^ 2))"
          "rat_int j" "\<lambda>t. inverse (1 + t ^ 2) ^ Suc j"])
       (use c le assms in \<open>simp_all del: power_Suc add: rat_int_deriv scaled_gauss_deriv rat_int_0 gauss_int_0\<close>)
  then show ?thesis by (simp add: c_def)
qed

lemma rat_int_mono: "x \<le> y \<Longrightarrow> rat_int j x \<le> rat_int j y"
proof (rule DERIV_nonneg_imp_nondecreasing[of x y "rat_int j"])
  fix t :: real
  have "0 \<le> inverse (1 + t ^ 2) ^ Suc j" by (intro zero_le_power) (simp add: add_nonneg_nonneg)
  then show "\<exists>d. (rat_int j has_real_derivative d) (at t) \<and> 0 \<le> d"
    using rat_int_deriv by blast
qed

lemma tail_term_tendsto: "((\<lambda>x::real. x * inverse (1 + x ^ 2) ^ Suc j) \<longlongrightarrow> 0) at_top"
proof -
  have bound: "x * inverse (1 + x ^ 2) ^ Suc j \<le> inverse x" if "1 \<le> x" for x :: real
  proof -
    define w where "w = inverse (1 + x ^ 2)"
    have w: "0 \<le> w" "w \<le> 1"
      using that by (simp_all add: w_def add_nonneg_nonneg inverse_le_1_iff)
    have "w ^ j \<le> 1" using w by (simp add: power_le_one)
    then have "w * w ^ j \<le> w * 1" using w by (intro mult_left_mono) simp_all
    then have "x * (w * w ^ j) \<le> x * w" using that by (intro mult_left_mono) simp_all
    also have "x * w \<le> inverse x"
    proof -
      have "x * x \<le> 1 + x ^ 2" by (simp add: power2_eq_square)
      then have "x * x / (1 + x ^ 2) \<le> 1" using that by (simp add: add_pos_nonneg)
      then have "x * (x * w) \<le> 1" by (simp add: w_def divide_inverse mult.assoc)
      then have "x * w \<le> 1 / x" using that by (simp add: pos_le_divide_eq mult.commute)
      then show ?thesis by (simp add: inverse_eq_divide)
    qed
    finally show ?thesis by (simp add: w_def)
  qed
  have nonneg: "0 \<le> x * inverse (1 + x ^ 2) ^ Suc j" if "1 \<le> x" for x :: real
    using that by (simp add: add_nonneg_nonneg)
  have ev1: "\<forall>\<^sub>F x in at_top. (0::real) \<le> x * inverse (1 + x ^ 2) ^ Suc j"
    unfolding eventually_at_top_linorder using nonneg by blast
  have ev2: "\<forall>\<^sub>F x in at_top. x * inverse (1 + x ^ 2) ^ Suc j \<le> inverse (x::real)"
    unfolding eventually_at_top_linorder using bound by blast
  have lim: "((\<lambda>x::real. inverse x) \<longlongrightarrow> 0) at_top"
    by (rule tendsto_inverse_0_at_top) (rule filterlim_ident)
  show ?thesis
    by (rule real_tendsto_sandwich[OF ev1 ev2 tendsto_const lim])
qed

lemma rat_int_limit: "(rat_int j \<longlongrightarrow> wallis (2 * j)) at_top"
proof (induction j)
  case 0
  have "rat_int 0 = arctan" by (rule ext) simp
  then show ?case using tendsto_arctan_at_top by simp
next
  case (Suc j)
  have eq: "rat_int (Suc j) =
      (\<lambda>x. (x * inverse (1 + x ^ 2) ^ Suc j + real (2 * j + 1) * rat_int j x) / real (2 * Suc j))"
    by (rule ext) simp
  have "((\<lambda>x. (x * inverse (1 + x ^ 2) ^ Suc j + real (2 * j + 1) * rat_int j x) / real (2 * Suc j))
      \<longlongrightarrow> (0 + real (2 * j + 1) * wallis (2 * j)) / real (2 * Suc j)) at_top"
    by (intro tendsto_intros tail_term_tendsto Suc.IH) simp
  moreover have "(0 + real (2 * j + 1) * wallis (2 * j)) / real (2 * Suc j) = wallis (2 * Suc j)"
    by simp
  ultimately show ?case unfolding eq by simp
qed

lemma rat_int_le_wallis: "rat_int j x \<le> wallis (2 * j)"
proof (rule tendsto_lowerbound[OF rat_int_limit])
  show "\<forall>\<^sub>F y in at_top. rat_int j x \<le> rat_int j y"
    using eventually_ge_at_top[of x] by eventually_elim (rule rat_int_mono)
  show "(at_top :: real filter) \<noteq> bot" by simp
qed

section \<open>The error function at infinity\<close>

text \<open>
  The bounds on \<open>wallis\<close> squeeze \<open>gauss_int\<close> to \<open>sqrt pi / 2\<close> at \<open>+\<infinity>\<close>, so
  \<open>erf\<close> tends to 1 there; \<open>erf\<close> is odd, so it tends to \<open>- 1\<close> at \<open>-\<infinity>\<close>.
\<close>

lemma gauss_int_mono: "x \<le> y \<Longrightarrow> gauss_int x \<le> gauss_int y"
proof (rule DERIV_nonneg_imp_nondecreasing[of x y gauss_int])
  fix t :: real
  have "0 \<le> exp (- (t ^ 2))" by simp
  then show "\<exists>d. (gauss_int has_real_derivative d) (at t) \<and> 0 \<le> d"
    using gauss_int_deriv by blast
qed

lemma gauss_int_nonneg: "0 \<le> y \<Longrightarrow> 0 \<le> gauss_int y"
  using gauss_int_mono[of 0 y] by (simp add: gauss_int_0)

lemma gauss_upper_wallis:
  assumes "0 \<le> y"
  shows "gauss_int y \<le> sqrt (real (Suc j)) * wallis (2 * j)"
proof -
  define c where "c = sqrt (real (Suc j))"
  have c: "0 < c" unfolding c_def by simp
  have "0 \<le> y / c" using assms c by simp
  then have "gauss_int (c * (y / c)) / c \<le> rat_int j (y / c)"
    unfolding c_def by (rule gauss_upper_rat)
  also have "\<dots> \<le> wallis (2 * j)" by (rule rat_int_le_wallis)
  finally have "gauss_int y / c \<le> wallis (2 * j)" using c by simp
  then have "gauss_int y \<le> wallis (2 * j) * c" using c by (simp add: pos_divide_le_eq)
  then show ?thesis by (simp add: c_def mult.commute)
qed

lemma gauss_sq_upper:
  assumes "0 \<le> y"
  shows "(gauss_int y) ^ 2 \<le> real (Suc (Suc i)) / real (Suc i) * (pi / 4)"
proof -
  define c where "c = sqrt (real (Suc (Suc i)))"
  define W where "W = wallis (2 * Suc i)"
  have W0: "0 \<le> W" using wallis_pos[of "2 * Suc i"] by (simp add: W_def)
  have c0: "0 \<le> c" by (simp add: c_def)
  have "gauss_int y \<le> c * W"
    unfolding c_def W_def by (rule gauss_upper_wallis[OF assms])
  then have "(gauss_int y) ^ 2 \<le> (c * W) ^ 2"
    using gauss_int_nonneg[OF assms] by (simp add: power_mono)
  also have "(c * W) ^ 2 = real (Suc (Suc i)) * W ^ 2"
    by (simp add: c_def power_mult_distrib)
  also have "W ^ 2 \<le> pi / (2 * real (Suc (2 * i + 1)))"
    using wallis_square_bounds(1)[of "2 * i + 1"] by (simp add: W_def)
  then have "real (Suc (Suc i)) * W ^ 2 \<le> real (Suc (Suc i)) * (pi / (2 * real (Suc (2 * i + 1))))"
    by (intro mult_left_mono) simp_all
  also have "real (Suc (Suc i)) * (pi / (2 * real (Suc (2 * i + 1))))
      = real (Suc (Suc i)) / real (Suc i) * (pi / 4)"
  proof -
    have "real (Suc (2 * i + 1)) = 2 * real (Suc i)" by simp
    then show ?thesis by (simp del: of_nat_Suc)
  qed
  finally show ?thesis .
qed

lemma gauss_sq_le: 
  assumes "0 \<le> y"
  shows "(gauss_int y) ^ 2 \<le> pi / 4"
proof (rule LIMSEQ_le_const)
  have "(\<lambda>n. real (Suc n) / real n) \<longlonglongrightarrow> 1" by (rule LIMSEQ_Suc_n_over_n)
  then have "(\<lambda>i. real (Suc (Suc i)) / real (Suc i)) \<longlonglongrightarrow> 1"
    by (rule LIMSEQ_Suc)
  then have "(\<lambda>i. real (Suc (Suc i)) / real (Suc i) * (pi / 4)) \<longlonglongrightarrow> 1 * (pi / 4)"
    by (intro tendsto_intros)
  then show "(\<lambda>i. real (Suc (Suc i)) / real (Suc i) * (pi / 4)) \<longlonglongrightarrow> pi / 4"
    by simp
  show "\<exists>N. \<forall>i\<ge>N. (gauss_int y) ^ 2 \<le> real (Suc (Suc i)) / real (Suc i) * (pi / 4)"
    using gauss_sq_upper[OF assms] by blast
qed

lemma gauss_int_le: "gauss_int y \<le> sqrt pi / 2"
proof (cases "0 \<le> y")
  case True
  have "gauss_int y \<le> sqrt (pi / 4)"
    by (rule real_le_rsqrt) (rule gauss_sq_le[OF True])
  also have "sqrt (pi / 4) = sqrt pi / 2"
    by (simp add: real_sqrt_divide)
  finally show ?thesis .
next
  case False
  then have "gauss_int y \<le> gauss_int 0" by (intro gauss_int_mono) simp
  also have "\<dots> \<le> sqrt pi / 2" by (simp add: gauss_int_0)
  finally show ?thesis .
qed

lemma gauss_lower_seq: "sqrt (real n / real (Suc n) * (pi / 4)) \<le> gauss_int (real n)"
proof (cases "n = 0")
  case True
  then show ?thesis by (simp add: gauss_int_0)
next
  case False
  then have n: "0 < n" by simp
  define W where "W = wallis (2 * n + 1)"
  have W0: "0 \<le> W" using wallis_pos[of "2 * n + 1"] by (simp add: W_def)
  have "pi / (2 * real (Suc (2 * n + 1))) \<le> W ^ 2"
    unfolding W_def by (rule wallis_square_bounds(2))
  moreover have "real (Suc (2 * n + 1)) = 2 * real (Suc n)" by simp
  ultimately have "pi / (4 * real (Suc n)) \<le> W ^ 2" by (simp del: of_nat_Suc)
  then have "sqrt (pi / (4 * real (Suc n))) \<le> W"
    using W0 by (intro real_le_lsqrt)
  then have "sqrt (real n) * sqrt (pi / (4 * real (Suc n))) \<le> sqrt (real n) * W"
    by (intro mult_left_mono) simp_all
  moreover have "sqrt (real n) * sqrt (pi / (4 * real (Suc n)))
      = sqrt (real n / real (Suc n) * (pi / 4))"
    by (simp add: real_sqrt_mult[symmetric] del: of_nat_Suc)
  ultimately have "sqrt (real n / real (Suc n) * (pi / 4)) \<le> sqrt (real n) * W" by simp
  also have "\<dots> \<le> gauss_int (sqrt (real n))"
    unfolding W_def by (rule gauss_lower_wallis[OF n])
  also have "\<dots> \<le> gauss_int (real n)"
  proof (rule gauss_int_mono)
    have "real n \<le> real n * real n" using n by simp
    then have "real n \<le> (real n) ^ 2" by (simp add: power2_eq_square)
    then show "sqrt (real n) \<le> real n" by (intro real_le_lsqrt) simp_all
  qed
  finally show ?thesis .
qed

lemma gauss_int_seq: "(\<lambda>n. gauss_int (real n)) \<longlonglongrightarrow> sqrt pi / 2"
proof -
  have "(\<lambda>n. real n / real (Suc n)) \<longlonglongrightarrow> 1" by (rule LIMSEQ_n_over_Suc_n)
  then have low0: "(\<lambda>n. sqrt (real n / real (Suc n) * (pi / 4))) \<longlonglongrightarrow> sqrt (1 * (pi / 4))"
    by (intro tendsto_intros)
  have s: "sqrt (1 * (pi / 4)) = sqrt pi / 2" by (simp add: real_sqrt_divide)
  have low: "(\<lambda>n. sqrt (real n / real (Suc n) * (pi / 4))) \<longlonglongrightarrow> sqrt pi / 2"
    using low0 unfolding s .
  have ev1: "\<forall>\<^sub>F n in sequentially. sqrt (real n / real (Suc n) * (pi / 4)) \<le> gauss_int (real n)"
    using gauss_lower_seq by (intro always_eventually) blast
  have ev2: "\<forall>\<^sub>F n in sequentially. gauss_int (real n) \<le> sqrt pi / 2"
    using gauss_int_le by (intro always_eventually) blast
  show ?thesis
    by (rule real_tendsto_sandwich[OF ev1 ev2 low tendsto_const])
qed

lemma gauss_int_at_top: "(gauss_int \<longlongrightarrow> sqrt pi / 2) at_top"
proof (rule tendsto_at_topI_sequentially_real)
  show "mono gauss_int" by (rule monoI) (rule gauss_int_mono)
  show "(\<lambda>n. gauss_int (real n)) \<longlonglongrightarrow> sqrt pi / 2" by (rule gauss_int_seq)
qed

lemma erf_at_top: "(erf \<longlongrightarrow> 1) at_top"
proof -
  have eq: "erf = (\<lambda>x. 2 / sqrt pi * gauss_int x)"
    by (rule ext) (simp add: gauss_int_def)
  have "((\<lambda>x. 2 / sqrt pi * gauss_int x) \<longlongrightarrow> 2 / sqrt pi * (sqrt pi / 2)) at_top"
    by (intro tendsto_intros gauss_int_at_top)
  then show ?thesis unfolding eq by simp
qed

lemma erf_odd: "erf (- x) = - erf x"
proof -
  have "(\<lambda>n. erf_coeffs n * (- x) ^ n) = (\<lambda>n. - (erf_coeffs n * x ^ n))"
  proof
    fix n :: nat
    show "erf_coeffs n * (- x) ^ n = - (erf_coeffs n * x ^ n)"
      by (cases "even n") (simp_all add: erf_coeffs_def)
  qed
  then have "erf (- x) = (\<Sum>n. - (erf_coeffs n * x ^ n))" by (simp add: erf_def)
  also have "\<dots> = - (\<Sum>n. erf_coeffs n * x ^ n)"
    by (rule suminf_minus) (rule erf_series_summable)
  finally show ?thesis by (simp add: erf_def)
qed

lemma erf_at_bot: "(erf \<longlongrightarrow> - 1) at_bot"
proof -
  have "((\<lambda>x. - erf x) \<longlongrightarrow> - 1) at_top"
    by (intro tendsto_intros erf_at_top)
  then have "((\<lambda>x. erf (- x)) \<longlongrightarrow> - 1) at_top" by (simp add: erf_odd)
  then show ?thesis by (simp add: filterlim_at_bot_mirror)
qed

section \<open>The closed form of the drift\<close>

text \<open>
  For \<open>tau > 0\<close> the argument \<open>sqrt 2 * (v - xi0) / tau\<close> of \<open>erf\<close> grows with
  \<open>v\<close> without bound in both directions, and the factor in front of the bracket is
  not positive: the drift falls as \<open>v\<close> grows.
\<close>

lemma phase_arg_at_top:
  assumes "0 < tau"
  shows "LIM v at_top. sqrt 2 * (v - xi0) / tau :> at_top"
proof -
  have eq: "(\<lambda>v. sqrt 2 * (v - xi0) / tau) = (\<lambda>v. - (sqrt 2 * xi0 / tau) + sqrt 2 / tau * v)"
    by (rule ext) (simp add: algebra_simps diff_divide_distrib)
  have c: "0 < sqrt 2 / tau" using assms by simp
  have "LIM v at_top. sqrt 2 / tau * v :> at_top"
    by (rule filterlim_tendsto_pos_mult_at_top[OF tendsto_const c filterlim_ident])
  then have "LIM v at_top. - (sqrt 2 * xi0 / tau) + sqrt 2 / tau * v :> at_top"
    by (rule filterlim_tendsto_add_at_top[OF tendsto_const])
  then show ?thesis unfolding eq .
qed

lemma phase_arg_at_bot:
  assumes "0 < tau"
  shows "LIM v at_bot. sqrt 2 * (v - xi0) / tau :> at_bot"
proof -
  have eq: "(\<lambda>v. sqrt 2 * (v - xi0) / tau) = (\<lambda>v. - (sqrt 2 * xi0 / tau) + sqrt 2 / tau * v)"
    by (rule ext) (simp add: algebra_simps diff_divide_distrib)
  have c: "0 < sqrt 2 / tau" using assms by simp
  have "LIM v at_bot. sqrt 2 / tau * v :> at_bot"
    by (rule filterlim_tendsto_pos_mult_at_bot[OF tendsto_const c filterlim_ident])
  then have "LIM v at_bot. - (sqrt 2 * xi0 / tau) + sqrt 2 / tau * v :> at_bot"
    by (rule iffD2[OF filterlim_tendsto_add_at_bot_iff[OF tendsto_const]])
  then show ?thesis unfolding eq .
qed

lemma drift_form_at_top:
  assumes "0 < tau"
  shows "(drift_form a0 tau xi0 \<longlongrightarrow> 0) at_top"
proof -
  have e: "((\<lambda>v. erf (sqrt 2 * (v - xi0) / tau)) \<longlongrightarrow> 1) at_top"
    by (rule filterlim_compose[OF erf_at_top phase_arg_at_top[OF assms]])
  have "((\<lambda>v. - 0.125 * sqrt (pi / 2) * a0 ^ 2 * tau * (erf (sqrt 2 * (v - xi0) / tau) - 1))
      \<longlongrightarrow> - 0.125 * sqrt (pi / 2) * a0 ^ 2 * tau * (1 - 1)) at_top"
    by (intro tendsto_intros e)
  then show ?thesis by (simp add: drift_form_def[abs_def])
qed

lemma drift_form_at_bot:
  assumes "0 < tau"
  shows "(drift_form a0 tau xi0 \<longlongrightarrow> 0.25 * sqrt (pi / 2) * a0 ^ 2 * tau) at_bot"
proof -
  have e: "((\<lambda>v. erf (sqrt 2 * (v - xi0) / tau)) \<longlongrightarrow> - 1) at_bot"
    by (rule filterlim_compose[OF erf_at_bot phase_arg_at_bot[OF assms]])
  have "((\<lambda>v. - 0.125 * sqrt (pi / 2) * a0 ^ 2 * tau * (erf (sqrt 2 * (v - xi0) / tau) - 1))
      \<longlongrightarrow> - 0.125 * sqrt (pi / 2) * a0 ^ 2 * tau * (- 1 - 1)) at_bot"
    by (intro tendsto_intros e)
  moreover have "- 0.125 * sqrt (pi / 2) * a0 ^ 2 * tau * (- 1 - 1)
      = 0.25 * sqrt (pi / 2) * a0 ^ 2 * tau" by simp
  ultimately show ?thesis by (simp only: drift_form_def[abs_def])
qed

lemma drift_form_antimono:
  assumes "0 < tau" and "u \<le> v"
  shows "drift_form a0 tau xi0 v \<le> drift_form a0 tau xi0 u"
proof -
  have "sqrt 2 * (u - xi0) \<le> sqrt 2 * (v - xi0)" using assms(2) by simp
  then have "sqrt 2 * (u - xi0) / tau \<le> sqrt 2 * (v - xi0) / tau"
    using assms(1) by (simp add: divide_right_mono)
  then have "erf (sqrt 2 * (u - xi0) / tau) - 1 \<le> erf (sqrt 2 * (v - xi0) / tau) - 1"
    using erf_mono by simp
  moreover have "0 \<le> 0.125 * sqrt (pi / 2) * a0 ^ 2 * tau"
    using assms(1) by simp
  ultimately have "0.125 * sqrt (pi / 2) * a0 ^ 2 * tau * (erf (sqrt 2 * (u - xi0) / tau) - 1)
      \<le> 0.125 * sqrt (pi / 2) * a0 ^ 2 * tau * (erf (sqrt 2 * (v - xi0) / tau) - 1)"
    by (rule mult_left_mono)
  then show ?thesis by (simp add: drift_form_def)
qed

lemma drift_form_strict:
  assumes "0 < tau" and "u < v" and "a0 \<noteq> 0"
  shows "drift_form a0 tau xi0 v < drift_form a0 tau xi0 u"
proof -
  have "sqrt 2 * (u - xi0) < sqrt 2 * (v - xi0)" using assms(2) by simp
  then have "sqrt 2 * (u - xi0) / tau < sqrt 2 * (v - xi0) / tau"
    using assms(1) by (simp add: divide_strict_right_mono)
  then have "erf (sqrt 2 * (u - xi0) / tau) - 1 < erf (sqrt 2 * (v - xi0) / tau) - 1"
    using erf_strict_mono by simp
  moreover have "0 < 0.125 * sqrt (pi / 2) * a0 ^ 2 * tau"
    using assms(1,3) by simp
  ultimately have "0.125 * sqrt (pi / 2) * a0 ^ 2 * tau * (erf (sqrt 2 * (u - xi0) / tau) - 1)
      < 0.125 * sqrt (pi / 2) * a0 ^ 2 * tau * (erf (sqrt 2 * (v - xi0) / tau) - 1)"
    by (rule mult_strict_left_mono)
  then show ?thesis by (simp add: drift_form_def)
qed

lemma grid_three: "grid 1 3 = Inr ([4, 0, - 4], - 4)"
  by (simp add: grid_def linspace_def getitem_def Let_def numeral_3_eq_3 numeral_2_eq_2)

section \<open>The cells on values that may be non-finite\<close>



lemma fdiv_NaN_right: "fdiv u NaN = NaN"
  by (cases u) simp_all





lemma run_nf_fields:
  assumes "grid tau Nint = Inr (xs, step)"
  shows "run_nf a0 tau xi0 Nint = Inr
          \<lparr> xi = map Fin xs, dxi = Fin step, a_env = envelope_nf a0 tau xi0 (map Fin xs),
            a_wave = waveform_nf (envelope_nf a0 tau xi0 (map Fin xs)) (map Fin xs),
            px = waveform_nf (envelope_nf a0 tau xi0 (map Fin xs)) (map Fin xs),
            pz = momentum_pz_nf (waveform_nf (envelope_nf a0 tau xi0 (map Fin xs)) (map Fin xs)),
            gamma = lorentz_gamma_nf
                      (waveform_nf (envelope_nf a0 tau xi0 (map Fin xs)) (map Fin xs))
                      (momentum_pz_nf
                         (waveform_nf (envelope_nf a0 tau xi0 (map Fin xs)) (map Fin xs))),
            x_num = trajectory_nf
                      (waveform_nf (envelope_nf a0 tau xi0 (map Fin xs)) (map Fin xs)) (Fin step),
            z_num = trajectory_nf
                      (momentum_pz_nf
                         (waveform_nf (envelope_nf a0 tau xi0 (map Fin xs)) (map Fin xs)))
                      (Fin step),
            xan = analytic_x_nf (envelope_nf a0 tau xi0 (map Fin xs)) (map Fin xs),
            zdrift = analytic_drift_nf a0 tau xi0 (map Fin xs),
            zan = analytic_z_nf (analytic_drift_nf a0 tau xi0 (map Fin xs))
                    (envelope_nf a0 tau xi0 (map Fin xs)) (map Fin xs) \<rparr>"
  using assms by (simp add: run_nf_def Let_def)


lemma envelope_nf_zero_off_centre:
  "xi0 \<noteq> 0 \<Longrightarrow> envelope_nf a0 0 xi0 (replicate n (Fin 0)) = replicate n (Fin 0)"
  by (simp add: envelope_nf_def fsub_def fpow2_def signed_inf_def)








text \<open>
  For \<open>tau \<noteq> 0\<close> no operation leaves the finite numbers, and \<open>run_nf\<close> is \<open>run\<close>
  with every entry wrapped in \<open>Fin\<close>.
\<close>

lemma envelope_nf_finite:
  "tau \<noteq> 0 \<Longrightarrow> envelope_nf a0 tau xi0 (map Fin xs) = map Fin (envelope a0 tau xi0 xs)"
  by (simp add: envelope_nf_def envelope_def fsub_def fpow2_def power2_eq_square)

lemma waveform_nf_finite: "waveform_nf (map Fin env) (map Fin xs) = map Fin (waveform env xs)"
  by (induction env xs rule: list_induct2') (simp_all add: waveform_nf_def waveform_def)

lemma momentum_pz_nf_finite: "momentum_pz_nf (map Fin p) = map Fin (momentum_pz p)"
  by (simp add: momentum_pz_nf_def momentum_pz_def fpow2_def power2_eq_square)

lemma lorentz_gamma_nf_finite:
  "lorentz_gamma_nf (map Fin p) (map Fin q) = map Fin (lorentz_gamma p q)"
proof (induction p q rule: list_induct2')
  case (4 u p v q)
  have "\<not> 1 + u * u + v * v < 0"
    by (simp add: not_less add_nonneg_nonneg)
  with 4 show ?case
    by (simp add: lorentz_gamma_nf_def lorentz_gamma_def fpow2_def power2_eq_square)
qed (simp_all add: lorentz_gamma_nf_def lorentz_gamma_def)

lemma cumsum_from_nf_finite:
  "cumsum_from_nf (Fin s) (map Fin vs) = map Fin (cumsum_from s vs)"
  by (induction vs arbitrary: s) simp_all

lemma trapezoids_nf_finite:
  "map (\<lambda>s. fdiv (fmul (Fin 1) s) (Fin 2)) (map2 fadd (map Fin us) (map Fin vs))
     = map Fin (map (\<lambda>s. 1 * s / 2) (map2 (+) us vs))"
  by (induction us vs rule: list_induct2') simp_all

lemma cumtrapz_nf_finite: "cumtrapz_nf (map Fin y) (Fin c) = map Fin (cumtrapz y c)"
proof -
  have "tl (map Fin y) = map Fin (tl y)" "butlast (map Fin y) = map Fin (butlast y)"
    by (simp_all add: map_tl map_butlast)
  then show ?thesis
    by (simp only: cumtrapz_nf_def cumtrapz_def cumsum_nf_def cumsum_def trapezoids_nf_finite
          cumsum_from_nf_finite list.map)
qed

lemma trajectory_nf_finite:
  "trajectory_nf (map Fin p) (Fin step) = map Fin (trajectory p step)"
  by (simp add: trajectory_nf_def trajectory_def cumtrapz_nf_finite)

lemma analytic_x_nf_finite:
  "analytic_x_nf (map Fin env) (map Fin xs) = map Fin (analytic_x env xs)"
  by (induction env xs rule: list_induct2') (simp_all add: analytic_x_nf_def analytic_x_def)

lemma analytic_drift_nf_finite:
  "tau \<noteq> 0 \<Longrightarrow>
     analytic_drift_nf a0 tau xi0 (map Fin xs) = map Fin (analytic_drift a0 tau xi0 xs)"
  by (simp add: analytic_drift_nf_def analytic_drift_def drift_form_nf_def drift_form_def
        fsub_def)

lemma oscillation_nf_finite:
  "map2 fmul (map (\<lambda>v. fmul (Fin 0.125) (fpow2 v)) (map Fin env))
       (map (\<lambda>v. fsin (fmul (Fin 2) v)) (map Fin xs))
     = map Fin (map2 (*) (map (\<lambda>v. 0.125 * v ^ 2) env) (map (\<lambda>v. sin (2 * v)) xs))"
  by (induction env xs rule: list_induct2') (simp_all add: fpow2_def power2_eq_square)

lemma sum_nf_finite: "map2 fadd (map Fin us) (map Fin vs) = map Fin (map2 (+) us vs)"
  by (induction us vs rule: list_induct2') simp_all

lemma analytic_z_nf_finite:
  "analytic_z_nf (map Fin drift) (map Fin env) (map Fin xs) = map Fin (analytic_z drift env xs)"
  by (simp only: analytic_z_nf_def analytic_z_def oscillation_nf_finite sum_nf_finite)

lemma run_nf_finite:
  assumes "tau \<noteq> 0"
  shows "run_nf a0 tau xi0 Nint =
           (case run a0 tau xi0 Nint of Inl e \<Rightarrow> Inl e | Inr st \<Rightarrow> Inr (finite_notebook st))"
proof (cases "grid tau Nint")
  case (Inl e)
  then show ?thesis by (simp add: run_nf_def run_def)
next
  case (Inr g)
  obtain xs step where g: "g = (xs, step)" by (cases g)
  show ?thesis
    unfolding run_nf_fields[OF Inr[unfolded g]] run_fields[OF Inr[unfolded g]]
    using assms
    by (simp add: finite_notebook_def envelope_nf_finite waveform_nf_finite
          momentum_pz_nf_finite lorentz_gamma_nf_finite trajectory_nf_finite
          analytic_x_nf_finite analytic_drift_nf_finite analytic_z_nf_finite momentum_px_def)
qed

section \<open>The claims\<close>

subsection \<open>Numerical integration\<close>

text \<open>
  Claim C1. For every amplitude \<open>a0\<close> and duration \<open>tau > 0\<close> (on a grid the grid
  cell accepts, \<open>Nint \<ge> 3\<close>) the run completes, the trajectories \<open>x\<close> and \<open>z\<close>
  have one entry for each grid point, their first entries are exactly zero, and entry
  \<open>k \<ge> 1\<close> is the partial sum over \<open>i < k\<close> of
  \<open>- 0.5 * (p[i] + p[i+1]) * dxi\<close>, with \<open>p\<close> the momentum \<open>px\<close> or \<open>pz\<close>.
\<close>

theorem trajectories_cumulative_trapezoid:
  assumes "0 < tau" and "3 \<le> Nint"
  shows "\<exists>st. run a0 tau xi0 Nint = Inr st \<and>
           length (x_num st) = nat Nint \<and> length (z_num st) = nat Nint \<and>
           x_num st ! 0 = 0 \<and> z_num st ! 0 = 0 \<and>
           (\<forall>k. 1 \<le> k \<and> k < nat Nint \<longrightarrow>
              x_num st ! k = (\<Sum>i<k. - 0.5 * (px st ! i + px st ! (i + 1)) * dxi st) \<and>
              z_num st ! k = (\<Sum>i<k. - 0.5 * (pz st ! i + pz st ! (i + 1)) * dxi st))"
proof -
  define step where "step = - 8 * tau / real (nat Nint - 1)"
  obtain xs where g: "grid tau Nint = Inr (xs, step)"
    and len: "length xs = nat Nint"
    using grid_points[OF assms(2), of tau] unfolding step_def by blast
  have pos: "0 < nat Nint" using assms(2) by simp
  note r = run_fields[OF g, of a0 xi0]
  show ?thesis
    unfolding r using len pos
    by (simp add: trajectory_length trajectory_0 trajectory_nth)
qed

theorem trajectories_cumulative_trapezoid_witness:
  "(0::real) < 1 \<and> (3::int) \<le> 3 \<and>
   (\<exists>st. run 4 1 0 3 = Inr st \<and> length (x_num st) = 3 \<and> length (z_num st) = 3 \<and>
      x_num st ! 0 = 0 \<and> z_num st ! 0 = 0 \<and> (1::nat) \<le> 2 \<and> (2::nat) < nat 3 \<and>
      x_num st ! 2 = (\<Sum>i<2. - 0.5 * (px st ! i + px st ! (i + 1)) * dxi st) \<and>
      z_num st ! 2 = (\<Sum>i<2. - 0.5 * (pz st ! i + pz st ! (i + 1)) * dxi st))"
proof -
  obtain st where st: "run 4 1 0 3 = Inr st"
    "length (x_num st) = nat 3" "length (z_num st) = nat 3"
    "x_num st ! 0 = 0" "z_num st ! 0 = 0"
    and sums: "\<forall>k. 1 \<le> k \<and> k < nat 3 \<longrightarrow>
              x_num st ! k = (\<Sum>i<k. - 0.5 * (px st ! i + px st ! (i + 1)) * dxi st) \<and>
              z_num st ! k = (\<Sum>i<k. - 0.5 * (pz st ! i + pz st ! (i + 1)) * dxi st)"
    using trajectories_cumulative_trapezoid[of 1 3 4 0] by auto
  have two: "(1::nat) \<le> 2 \<and> (2::nat) < nat 3" by simp
  from sums two have
    "x_num st ! 2 = (\<Sum>i<2. - 0.5 * (px st ! i + px st ! (i + 1)) * dxi st) \<and>
     z_num st ! 2 = (\<Sum>i<2. - 0.5 * (pz st ! i + pz st ! (i + 1)) * dxi st)"
    by blast
  with st two show ?thesis by auto
qed

text \<open>
  Claim C10. For every \<open>a0\<close> and \<open>tau > 0\<close> the step \<open>dxi\<close> is negative, every
  \<open>pz[i]\<close> is non-negative, so every trapezoidal increment
  \<open>- 0.5 * (pz[k] + pz[k+1]) * dxi\<close> is non-negative and \<open>z[k+1] \<ge> z[k]\<close>: the
  numeric longitudinal trajectory never decreases along the array.
\<close>

theorem longitudinal_trajectory_monotone:
  assumes "0 < tau" and "3 \<le> Nint"
  shows "\<exists>st. run a0 tau xi0 Nint = Inr st \<and> length (z_num st) = nat Nint \<and>
           dxi st < 0 \<and> (\<forall>i<nat Nint. 0 \<le> pz st ! i) \<and>
           (\<forall>k. k + 1 < nat Nint \<longrightarrow>
              0 \<le> - 0.5 * (pz st ! k + pz st ! (k + 1)) * dxi st \<and>
              z_num st ! k \<le> z_num st ! (k + 1))"
proof -
  define step where "step = - 8 * tau / real (nat Nint - 1)"
  obtain xs where g: "grid tau Nint = Inr (xs, step)"
    and len: "length xs = nat Nint"
    using grid_points[OF assms(2), of tau] unfolding step_def by blast
  let ?q = "momentum_pz (momentum_px (waveform (envelope a0 tau xi0 xs) xs))"
  have lq: "length ?q = nat Nint" using len by simp
  have neg: "step < 0" using assms by (simp add: step_def field_simps)
  have q0: "0 \<le> ?q ! i" if "i < nat Nint" for i
    using that lq by (simp add: momentum_pz_nth)
  have inc: "0 \<le> - 0.5 * (?q ! k + ?q ! (k + 1)) * step" if "k + 1 < nat Nint" for k
  proof -
    have "0 \<le> ?q ! k + ?q ! (k + 1)" using q0[of k] q0[of "k + 1"] that by simp
    then have "0 \<le> (0.5 * (?q ! k + ?q ! (k + 1))) * (- step)"
      using neg by (intro mult_nonneg_nonneg) simp_all
    then show ?thesis by (simp add: algebra_simps)
  qed
  have mono: "trajectory ?q step ! k \<le> trajectory ?q step ! (k + 1)" if "k + 1 < nat Nint" for k
    using trajectory_step[of k ?q step] inc[OF that] that lq by simp
  note r = run_fields[OF g, of a0 xi0]
  have pos: "0 < nat Nint" using assms(2) by simp
  show ?thesis
    unfolding r using lq neg q0 inc mono pos
    by (simp add: trajectory_length)
qed

theorem longitudinal_trajectory_monotone_witness:
  "(0::real) < 1 \<and> (3::int) \<le> 3 \<and>
   (\<exists>st. run 4 1 0 3 = Inr st \<and> length (z_num st) = 3 \<and> dxi st < 0 \<and>
      (1::nat) < nat 3 \<and> 0 \<le> pz st ! 1 \<and> (1::nat) + 1 < nat 3 \<and>
      0 \<le> - 0.5 * (pz st ! 1 + pz st ! (1 + 1)) * dxi st \<and>
      z_num st ! 1 \<le> z_num st ! (1 + 1))"
proof -
  obtain st where st: "run 4 1 0 3 = Inr st" "length (z_num st) = nat 3" "dxi st < 0"
    and nonneg: "\<forall>i<nat 3. 0 \<le> pz st ! i"
    and steps: "\<forall>k. k + 1 < nat 3 \<longrightarrow>
              0 \<le> - 0.5 * (pz st ! k + pz st ! (k + 1)) * dxi st \<and>
              z_num st ! k \<le> z_num st ! (k + 1)"
    using longitudinal_trajectory_monotone[of 1 3 4 0] by auto
  have idx: "(1::nat) < nat 3" "(1::nat) + 1 < nat 3" by simp_all
  from nonneg idx(1) have "0 \<le> pz st ! 1" by blast
  moreover from steps idx(2) have
    "0 \<le> - 0.5 * (pz st ! 1 + pz st ! (1 + 1)) * dxi st \<and> z_num st ! 1 \<le> z_num st ! (1 + 1)"
    by blast
  ultimately show ?thesis using st idx by auto
qed

subsection \<open>Kinematics\<close>

text \<open>
  Claim C4. For every waveform array and every index \<open>i\<close> of it, the kinematics cell
  gives \<open>px[i] = a[i]\<close> and \<open>pz[i] = 0.5 * px[i]\<^sup>2\<close>.
\<close>

theorem kinematics_px_pz:
  assumes "i < length wave"
  shows "momentum_px wave ! i = wave ! i \<and>
         momentum_pz (momentum_px wave) ! i = 0.5 * (momentum_px wave ! i) ^ 2"
  using assms by (simp add: momentum_px_def momentum_pz_nth)

theorem kinematics_px_pz_witness:
  "(1::nat) < length [3, 2 :: real] \<and> momentum_px [3, 2] ! 1 = [3, 2] ! 1 \<and>
   momentum_pz (momentum_px [3, 2]) ! 1 = 0.5 * (momentum_px [3, 2] ! 1) ^ 2"
  using kinematics_px_pz[of 1 "[3, 2]"] by (simp add: momentum_px_def)

text \<open>
  Claim C5. For all real arrays \<open>px\<close> and \<open>pz\<close> of one length and every index \<open>i\<close>,
  \<open>gamma[i] = sqrt (1 + px[i]\<^sup>2 + pz[i]\<^sup>2)\<close>, the argument of the square root is
  never negative, \<open>gamma[i] \<ge> 1\<close>, and the result has an entry for every index: there
  is no input on which the evaluation fails.
\<close>

theorem lorentz_gamma_total:
  assumes "i < length p" and "length q = length p"
  shows "lorentz_gamma p q ! i = sqrt (1 + (p ! i) ^ 2 + (q ! i) ^ 2) \<and>
         1 \<le> lorentz_gamma p q ! i \<and> 0 \<le> 1 + (p ! i) ^ 2 + (q ! i) ^ 2 \<and>
         length (lorentz_gamma p q) = length p"
proof -
  have "1 \<le> 1 + (p ! i) ^ 2 + (q ! i) ^ 2" by simp
  then have "1 \<le> sqrt (1 + (p ! i) ^ 2 + (q ! i) ^ 2)"
    using real_sqrt_ge_1_iff by blast
  moreover have "0 \<le> 1 + (p ! i) ^ 2 + (q ! i) ^ 2"
    by (simp add: add_nonneg_nonneg)
  ultimately show ?thesis
    using assms by (simp add: lorentz_gamma_nth)
qed

theorem lorentz_gamma_total_witness:
  "(0::nat) < length [3 :: real] \<and> length [4 :: real] = length [3 :: real] \<and>
   lorentz_gamma [3] [4] ! 0 = sqrt (1 + ([3] ! 0) ^ 2 + ([4] ! 0) ^ 2) \<and>
   1 \<le> lorentz_gamma [3] [4] ! 0 \<and> (0::real) \<le> 1 + ([3] ! 0) ^ 2 + ([4] ! 0) ^ 2 \<and>
   length (lorentz_gamma [3] [4]) = length [3 :: real]"
  using lorentz_gamma_total[of 0 "[3]" "[4]"] by simp

subsection \<open>Analytic solution\<close>

text \<open>
  Claim C2. For every \<open>a0\<close>, \<open>xi0\<close> and \<open>tau \<noteq> 0\<close> and every grid index \<open>i\<close>:
  \<open>a_[i] = a0 * exp (- (xi[i] - xi0)\<^sup>2 / tau\<^sup>2)\<close>,
  \<open>xan[i] = a_[i] * cos xi[i]\<close>,
  \<open>zdrift[i] = - 0.125 * sqrt (pi / 2) * a0\<^sup>2 * tau * (erf (sqrt 2 * (xi[i] - xi0) / tau) - 1)\<close>
  and \<open>zan[i] = zdrift[i] + 0.125 * a_[i]\<^sup>2 * sin (2 * xi[i])\<close>.
\<close>

theorem analytic_closed_forms:
  assumes "tau \<noteq> 0" and "3 \<le> Nint"
  shows "\<exists>st. run a0 tau xi0 Nint = Inr st \<and> length (xi st) = nat Nint \<and>
           (\<forall>i<nat Nint.
              a_env st ! i = a0 * exp (- ((xi st ! i - xi0) ^ 2) / tau ^ 2) \<and>
              xan st ! i = a_env st ! i * cos (xi st ! i) \<and>
              zdrift st ! i =
                - 0.125 * sqrt (pi / 2) * a0 ^ 2 * tau *
                  (erf (sqrt 2 * (xi st ! i - xi0) / tau) - 1) \<and>
              zan st ! i = zdrift st ! i + 0.125 * (a_env st ! i) ^ 2 * sin (2 * xi st ! i))"
proof -
  obtain xs step where g: "grid tau Nint = Inr (xs, step)"
    and len: "length xs = nat Nint"
    using grid_points[OF assms(2), of tau] by blast
  note r = run_fields[OF g, of a0 xi0]
  show ?thesis
    unfolding r using len
    by (simp add: envelope_nth analytic_x_nth analytic_drift_nth analytic_z_nth drift_form_def)
qed

theorem analytic_closed_forms_witness:
  "(1::real) \<noteq> 0 \<and> (3::int) \<le> 3 \<and>
   (\<exists>st. run 4 1 0 3 = Inr st \<and> length (xi st) = 3 \<and> (2::nat) < nat 3 \<and>
      a_env st ! 2 = 4 * exp (- ((xi st ! 2 - 0) ^ 2) / 1 ^ 2) \<and>
      xan st ! 2 = a_env st ! 2 * cos (xi st ! 2) \<and>
      zdrift st ! 2 =
        - 0.125 * sqrt (pi / 2) * 4 ^ 2 * 1 * (erf (sqrt 2 * (xi st ! 2 - 0) / 1) - 1) \<and>
      zan st ! 2 = zdrift st ! 2 + 0.125 * (a_env st ! 2) ^ 2 * sin (2 * xi st ! 2))"
proof -
  obtain st where st: "run 4 1 0 3 = Inr st" "length (xi st) = nat 3"
    and forms: "\<forall>i<nat 3.
              a_env st ! i = 4 * exp (- ((xi st ! i - 0) ^ 2) / 1 ^ 2) \<and>
              xan st ! i = a_env st ! i * cos (xi st ! i) \<and>
              zdrift st ! i =
                - 0.125 * sqrt (pi / 2) * 4 ^ 2 * 1 *
                  (erf (sqrt 2 * (xi st ! i - 0) / 1) - 1) \<and>
              zan st ! i = zdrift st ! i + 0.125 * (a_env st ! i) ^ 2 * sin (2 * xi st ! i)"
    using analytic_closed_forms[of 1 3 4 0] by auto
  have idx: "(2::nat) < nat 3" by simp
  from forms idx have
    "a_env st ! 2 = 4 * exp (- ((xi st ! 2 - 0) ^ 2) / 1 ^ 2) \<and>
     xan st ! 2 = a_env st ! 2 * cos (xi st ! 2) \<and>
     zdrift st ! 2 =
       - 0.125 * sqrt (pi / 2) * 4 ^ 2 * 1 * (erf (sqrt 2 * (xi st ! 2 - 0) / 1) - 1) \<and>
     zan st ! 2 = zdrift st ! 2 + 0.125 * (a_env st ! 2) ^ 2 * sin (2 * xi st ! 2)"
    by blast
  with st idx show ?thesis by auto
qed

text \<open>
  Claim C7. With \<open>a0 = 0\<close> and any \<open>tau > 0\<close>, the arrays \<open>a_\<close>, \<open>a\<close>, \<open>px\<close>,
  \<open>pz\<close>, \<open>xan\<close>, \<open>zdrift\<close> and \<open>zan\<close> are zero at every grid point and \<open>gamma\<close>
  is one at every grid point.
\<close>

theorem zero_amplitude:
  assumes "0 < tau" and "3 \<le> Nint"
  shows "\<exists>st. run 0 tau xi0 Nint = Inr st \<and>
           length (a_env st) = nat Nint \<and> length (a_wave st) = nat Nint \<and>
           length (px st) = nat Nint \<and> length (pz st) = nat Nint \<and>
           length (gamma st) = nat Nint \<and> length (xan st) = nat Nint \<and>
           length (zdrift st) = nat Nint \<and> length (zan st) = nat Nint \<and>
           (\<forall>i<nat Nint.
              a_env st ! i = 0 \<and> a_wave st ! i = 0 \<and> px st ! i = 0 \<and> pz st ! i = 0 \<and>
              xan st ! i = 0 \<and> zdrift st ! i = 0 \<and> zan st ! i = 0 \<and> gamma st ! i = 1)"
proof -
  obtain xs step where g: "grid tau Nint = Inr (xs, step)"
    and len: "length xs = nat Nint"
    using grid_points[OF assms(2), of tau] by blast
  note r = run_fields[OF g, of 0 xi0]
  show ?thesis
    unfolding r using len
    by (simp add: envelope_nth waveform_nth momentum_px_def momentum_pz_nth lorentz_gamma_nth
          analytic_x_nth analytic_drift_nth analytic_z_nth drift_form_def)
qed

theorem zero_amplitude_witness:
  "(0::real) < 1 \<and> (3::int) \<le> 3 \<and>
   (\<exists>st. run 0 1 0 3 = Inr st \<and> length (px st) = 3 \<and> length (gamma st) = 3 \<and>
      (1::nat) < nat 3 \<and>
      a_env st ! 1 = 0 \<and> a_wave st ! 1 = 0 \<and> px st ! 1 = 0 \<and> pz st ! 1 = 0 \<and>
      xan st ! 1 = 0 \<and> zdrift st ! 1 = 0 \<and> zan st ! 1 = 0 \<and> gamma st ! 1 = 1)"
proof -
  obtain st where st: "run 0 1 0 3 = Inr st" "length (px st) = nat 3"
    "length (gamma st) = nat 3"
    and zero: "\<forall>i<nat 3.
              a_env st ! i = 0 \<and> a_wave st ! i = 0 \<and> px st ! i = 0 \<and> pz st ! i = 0 \<and>
              xan st ! i = 0 \<and> zdrift st ! i = 0 \<and> zan st ! i = 0 \<and> gamma st ! i = 1"
    using zero_amplitude[of 1 3 0] by auto
  have idx: "(1::nat) < nat 3" by simp
  from zero idx have
    "a_env st ! 1 = 0 \<and> a_wave st ! 1 = 0 \<and> px st ! 1 = 0 \<and> pz st ! 1 = 0 \<and>
     xan st ! 1 = 0 \<and> zdrift st ! 1 = 0 \<and> zan st ! 1 = 0 \<and> gamma st ! 1 = 1"
    by blast
  with st idx show ?thesis by auto
qed

text \<open>
  Claim C3, as amended. For every \<open>a0\<close> and \<open>tau > 0\<close> the array \<open>zdrift\<close> holds the
  closed form \<open>drift_form\<close> at the grid points and never decreases as \<open>xi\<close>
  decreases, that is along the array index; read from the end of the descending grid back
  toward its start, it never increases. The closed form never increases as \<open>xi\<close> grows,
  tends to \<open>0\<close> at \<open>+\<infinity>\<close> and to \<open>0.25 * sqrt (pi / 2) * a0\<^sup>2 * tau\<close> at \<open>-\<infinity>\<close>,
  so its net change from \<open>-\<infinity>\<close> to \<open>+\<infinity>\<close> is \<open>- 0.25 * sqrt (pi / 2) * a0\<^sup>2 * tau\<close>.
\<close>

theorem drift_monotone_and_net_change:
  assumes "0 < tau" and "3 \<le> Nint"
  shows "\<exists>st. run a0 tau xi0 Nint = Inr st \<and>
           length (xi st) = nat Nint \<and> length (zdrift st) = nat Nint \<and>
           (\<forall>i<nat Nint. zdrift st ! i = drift_form a0 tau xi0 (xi st ! i)) \<and>
           (\<forall>i j. i \<le> j \<and> j < nat Nint \<longrightarrow>
              xi st ! j \<le> xi st ! i \<and> zdrift st ! i \<le> zdrift st ! j) \<and>
           (\<forall>u v. u \<le> v \<longrightarrow> drift_form a0 tau xi0 v \<le> drift_form a0 tau xi0 u) \<and>
           (\<exists>hi lo. (drift_form a0 tau xi0 \<longlongrightarrow> hi) at_top \<and>
              (drift_form a0 tau xi0 \<longlongrightarrow> lo) at_bot \<and>
              hi - lo = - 0.25 * sqrt (pi / 2) * a0 ^ 2 * tau)"
proof -
  define h where "h = - 8 * tau / real (nat Nint - 1)"
  have hneg: "h \<le> 0" using assms by (simp add: h_def field_simps)
  obtain xs where g: "grid tau Nint = Inr (xs, h)"
    and len: "length xs = nat Nint"
    and pts: "\<forall>i<nat Nint. xs ! i = 4 * tau + real i * h"
    using grid_points[OF assms(2), of tau] unfolding h_def by blast
  have dec: "xs ! j \<le> xs ! i" if "i \<le> j" "j < nat Nint" for i j
  proof -
    have "real j * h \<le> real i * h"
      using that(1) hneg by (intro mult_right_mono_neg) simp_all
    then show ?thesis using pts that by simp
  qed
  have drift: "analytic_drift a0 tau xi0 xs ! i = drift_form a0 tau xi0 (xs ! i)"
    if "i < nat Nint" for i
    using that len by (simp add: analytic_drift_nth)
  have mono: "analytic_drift a0 tau xi0 xs ! i \<le> analytic_drift a0 tau xi0 xs ! j"
    if "i \<le> j" "j < nat Nint" for i j
    using drift_form_antimono[OF assms(1) dec[OF that], of a0 xi0] drift[of i] drift[of j] that
    by simp
  have limits: "\<exists>hi lo. (drift_form a0 tau xi0 \<longlongrightarrow> hi) at_top \<and>
              (drift_form a0 tau xi0 \<longlongrightarrow> lo) at_bot \<and>
              hi - lo = - 0.25 * sqrt (pi / 2) * a0 ^ 2 * tau"
    using drift_form_at_top[OF assms(1), of a0 xi0] drift_form_at_bot[OF assms(1), of a0 xi0]
    by (intro exI[of _ 0] exI[of _ "0.25 * sqrt (pi / 2) * a0 ^ 2 * tau"]) simp
  note r = run_fields[OF g, of a0 xi0]
  show ?thesis
    unfolding r using len dec drift mono limits drift_form_antimono[OF assms(1), of _ _ a0 xi0]
    by simp
qed

theorem drift_monotone_and_net_change_witness:
  "(0::real) < 1 \<and> (3::int) \<le> 3 \<and>
   (\<exists>st. run 1 1 0 3 = Inr st \<and> length (xi st) = 3 \<and> length (zdrift st) = 3 \<and>
      (1::nat) < nat 3 \<and> zdrift st ! 1 = drift_form 1 1 0 (xi st ! 1) \<and>
      (0::nat) \<le> 1 \<and> xi st ! 1 \<le> xi st ! 0 \<and> zdrift st ! 0 \<le> zdrift st ! 1 \<and>
      (0::real) \<le> 1 \<and> drift_form 1 1 0 1 \<le> drift_form 1 1 0 0 \<and>
      (\<exists>hi lo. (drift_form 1 1 0 \<longlongrightarrow> hi) at_top \<and>
         (drift_form 1 1 0 \<longlongrightarrow> lo) at_bot \<and>
         hi - lo = - 0.25 * sqrt (pi / 2) * 1 ^ 2 * 1))"
proof -
  obtain st where st: "run 1 1 0 3 = Inr st" "length (xi st) = nat 3"
    "length (zdrift st) = nat 3"
    and form: "\<forall>i<nat 3. zdrift st ! i = drift_form 1 1 0 (xi st ! i)"
    and idx: "\<forall>i j. i \<le> j \<and> j < nat 3 \<longrightarrow>
              xi st ! j \<le> xi st ! i \<and> zdrift st ! i \<le> zdrift st ! j"
    and anti: "\<forall>u v. u \<le> v \<longrightarrow> drift_form 1 1 0 v \<le> drift_form 1 1 0 u"
    and lim: "\<exists>hi lo. (drift_form 1 1 0 \<longlongrightarrow> hi) at_top \<and>
              (drift_form 1 1 0 \<longlongrightarrow> lo) at_bot \<and>
              hi - lo = - 0.25 * sqrt (pi / 2) * 1 ^ 2 * 1"
    using drift_monotone_and_net_change[of 1 3 1 0] by force
  have i1: "(1::nat) < nat 3" and i01: "(0::nat) \<le> 1 \<and> (1::nat) < nat 3"
    and uv: "(0::real) \<le> 1" by simp_all
  from form i1 have "zdrift st ! 1 = drift_form 1 1 0 (xi st ! 1)" by blast
  moreover from idx i01 have "xi st ! 1 \<le> xi st ! 0 \<and> zdrift st ! 0 \<le> zdrift st ! 1"
    by blast
  moreover from anti uv have "drift_form 1 1 0 1 \<le> drift_form 1 1 0 0" by blast
  ultimately show ?thesis using st lim i1 by auto
qed

text \<open>
  The sentence as the specification has it, the drift array non-increasing as \<open>xi\<close>
  decreases, fails on the three-point grid \<open>[4, 0, - 4]\<close> with \<open>a0 = 1\<close> and
  \<open>tau = 1\<close>: from the first sample to the second \<open>xi\<close> decreases and the drift
  strictly increases.
\<close>

theorem drift_direction_counterexample:
  "(case run 1 1 0 3 of Inl e \<Rightarrow> False
    | Inr st \<Rightarrow> xi st ! 1 < xi st ! 0 \<and> zdrift st ! 0 < zdrift st ! 1)"
proof -
  have "drift_form 1 1 0 4 < drift_form 1 1 0 0"
    by (rule drift_form_strict) simp_all
  then show ?thesis
    unfolding run_fields[OF grid_three] by (simp add: analytic_drift_def)
qed

subsection \<open>Grid construction\<close>

text \<open>
  Claim C9. The grid cell reads \<open>xi[2]\<close> and \<open>xi[1]\<close>, so it raises \<open>IndexError\<close>
  exactly for \<open>0 \<le> Nint < 3\<close> and returns a grid and a step exactly for \<open>Nint \<ge> 3\<close>;
  for \<open>Nint \<ge> 3\<close> and \<open>tau > 0\<close> the step is \<open>- 8 * tau / (Nint - 1)\<close>, the spacing
  of the linear grid.
\<close>

theorem step_needs_three_samples:
  "(grid tau Nint = Inl IndexError \<longleftrightarrow> 0 \<le> Nint \<and> Nint < 3) \<and>
   ((\<exists>xs step. grid tau Nint = Inr (xs, step)) \<longleftrightarrow> 3 \<le> Nint) \<and>
   (3 \<le> Nint \<and> 0 < tau \<longrightarrow>
      (\<exists>xs. grid tau Nint = Inr (xs, - 8 * tau / (real_of_int Nint - 1))))"
proof -
  consider "Nint < 0" | "0 \<le> Nint" "Nint < 3" | "3 \<le> Nint" by linarith
  then show ?thesis
  proof cases
    case 1
    then show ?thesis using grid_negative[of Nint tau] by simp
  next
    case 2
    then show ?thesis using grid_short[of Nint tau] by simp
  next
    case 3
    then have "real (nat Nint - 1) = real_of_int Nint - 1" by (simp add: of_nat_diff)
    with 3 show ?thesis using grid_points[OF 3, of tau] by auto
  qed
qed

theorem step_needs_three_samples_witness:
  "(grid 1 3 = Inl IndexError \<longleftrightarrow> (0::int) \<le> 3 \<and> (3::int) < 3) \<and>
   ((\<exists>xs step. grid 1 3 = Inr (xs, step)) \<longleftrightarrow> (3::int) \<le> 3) \<and>
   ((3::int) \<le> 3 \<and> (0::real) < 1 \<and>
      (\<exists>xs. grid 1 3 = Inr (xs, - 8 * 1 / (real_of_int 3 - 1))))"
  using step_needs_three_samples[of 1 3] by simp

text \<open>
  Claim C6, as amended. For every \<open>tau > 0\<close>: with \<open>Nint \<ge> 2\<close> the grid has \<open>Nint\<close>
  linearly spaced samples, \<open>xi[0] = 4 * tau\<close>, \<open>xi[Nint-1] = - 4 * tau\<close>, strictly
  decreasing; with \<open>Nint \<ge> 3\<close> the grid cell returns this grid and a step \<open>dxi\<close> that
  is negative and is the difference of every two consecutive samples. (With two samples
  the cell raises at \<open>xi[2]\<close> and there is no step.)
\<close>

theorem phase_grid_descending:
  assumes "0 < tau"
  shows "(2 \<le> Nint \<longrightarrow>
           (\<exists>xs. linspace (4 * tau) (- 4 * tau) Nint = Inr xs \<and> length xs = nat Nint \<and>
              xs ! 0 = 4 * tau \<and> xs ! (nat Nint - 1) = - 4 * tau \<and>
              (\<forall>i<nat Nint. xs ! i = 4 * tau + real i * (- 8 * tau / real (nat Nint - 1))) \<and>
              (\<forall>i. i + 1 < nat Nint \<longrightarrow> xs ! (i + 1) < xs ! i))) \<and>
         (3 \<le> Nint \<longrightarrow>
           (\<exists>xs step. grid tau Nint = Inr (xs, step) \<and>
              linspace (4 * tau) (- 4 * tau) Nint = Inr xs \<and> step < 0 \<and>
              (\<forall>i. i + 1 < nat Nint \<longrightarrow> xs ! (i + 1) - xs ! i = step)))"
proof (intro conjI impI)
  assume two: "2 \<le> Nint"
  define h where "h = - 8 * tau / real (nat Nint - 1)"
  have hneg: "h < 0" using assms two by (simp add: h_def field_simps)
  obtain xs where xs: "linspace (4 * tau) (- 4 * tau) Nint = Inr xs" "length xs = nat Nint"
    and pts: "\<forall>i<nat Nint. xs ! i = 4 * tau + real i * ((- 4 * tau - 4 * tau) / real (nat Nint - 1))"
    using linspace_points[OF two, of "4 * tau" "- 4 * tau"] by blast
  have pts': "\<forall>i<nat Nint. xs ! i = 4 * tau + real i * h"
    using pts by (simp add: h_def)
  have first: "xs ! 0 = 4 * tau" using pts' two by simp
  have "real (nat Nint - 1) * h = - 8 * tau" using two by (simp add: h_def)
  then have last: "xs ! (nat Nint - 1) = - 4 * tau" using pts' two by simp
  have dec: "xs ! (i + 1) < xs ! i" if "i + 1 < nat Nint" for i
  proof -
    have "xs ! (i + 1) = xs ! i + h" using pts' that by (simp add: algebra_simps)
    then show ?thesis using hneg by simp
  qed
  show "\<exists>xs. linspace (4 * tau) (- 4 * tau) Nint = Inr xs \<and> length xs = nat Nint \<and>
              xs ! 0 = 4 * tau \<and> xs ! (nat Nint - 1) = - 4 * tau \<and>
              (\<forall>i<nat Nint. xs ! i = 4 * tau + real i * (- 8 * tau / real (nat Nint - 1))) \<and>
              (\<forall>i. i + 1 < nat Nint \<longrightarrow> xs ! (i + 1) < xs ! i)"
    using xs first last pts' dec unfolding h_def by blast
next
  assume three: "3 \<le> Nint"
  define h where "h = - 8 * tau / real (nat Nint - 1)"
  have hneg: "h < 0" using assms three by (simp add: h_def field_simps)
  obtain xs where g: "grid tau Nint = Inr (xs, h)"
    and xs: "linspace (4 * tau) (- 4 * tau) Nint = Inr xs"
    and pts: "\<forall>i<nat Nint. xs ! i = 4 * tau + real i * h"
    using grid_points[OF three, of tau] unfolding h_def by blast
  have "xs ! (i + 1) - xs ! i = h" if "i + 1 < nat Nint" for i
    using pts that by (simp add: algebra_simps)
  then show "\<exists>xs step. grid tau Nint = Inr (xs, step) \<and>
              linspace (4 * tau) (- 4 * tau) Nint = Inr xs \<and> step < 0 \<and>
              (\<forall>i. i + 1 < nat Nint \<longrightarrow> xs ! (i + 1) - xs ! i = step)"
    using g xs hneg by blast
qed

theorem phase_grid_descending_witness:
  "(0::real) < 1 \<and> (2::int) \<le> 3 \<and> (3::int) \<le> 3 \<and>
   (\<exists>xs step. grid 1 3 = Inr (xs, step) \<and> linspace (4 * 1) (- 4 * 1) 3 = Inr xs \<and>
      length xs = 3 \<and> xs ! 0 = 4 * 1 \<and> xs ! (nat 3 - 1) = - 4 * 1 \<and>
      (1::nat) + 1 < nat 3 \<and> xs ! (1 + 1) < xs ! 1 \<and> step < 0 \<and>
      xs ! (1 + 1) - xs ! 1 = step)"
proof -
  have tau: "(0::real) < 1" and n2: "(2::int) \<le> 3" and n3: "(3::int) \<le> 3" by simp_all
  note both = phase_grid_descending[OF tau, of 3]
  from both n2 obtain xs where xs: "linspace (4 * 1) (- 4 * 1) 3 = Inr xs"
    "length xs = nat 3" "xs ! 0 = 4 * 1" "xs ! (nat 3 - 1) = - 4 * 1"
    and dec: "\<forall>i. i + 1 < nat 3 \<longrightarrow> xs ! (i + 1) < xs ! i"
    by blast
  from both n3 obtain ys step where ys: "grid 1 3 = Inr (ys, step)"
    "linspace (4 * 1) (- 4 * 1) 3 = Inr ys" "step < 0"
    and uni: "\<forall>i. i + 1 < nat 3 \<longrightarrow> ys ! (i + 1) - ys ! i = step"
    by blast
  have same: "ys = xs" using xs(1) ys(2) by simp
  have idx: "(1::nat) + 1 < nat 3" by simp
  from dec idx have "xs ! (1 + 1) < xs ! 1" by blast
  moreover from uni idx same have "xs ! (1 + 1) - xs ! 1 = step" by blast
  ultimately show ?thesis using xs ys same idx by auto
qed

text \<open>
  With two samples and \<open>tau = 1\<close> the grid cell raises at \<open>xi[2]\<close>: there is no
  step, so it is neither negative nor uniform.
\<close>

theorem grid_two_samples_counterexample: "grid 1 2 = Inl IndexError"
  by (simp add: grid_def linspace_def getitem_def Let_def)

subsection \<open>A zero duration\<close>



end
